theory Spec2Isabelle
  imports Complex_Main
begin

section \<open>Data model\<close>

text \<open>
  The two record families of \<^verbatim>\<open>src/src/App.tsx\<close> (interfaces \<^verbatim>\<open>Post\<close> and
  \<^verbatim>\<open>Reminder\<close>). The optional \<^verbatim>\<open>id\<close> member is the primary key assigned by the
  store (schema \<^verbatim>\<open>++id\<close>); it is kept as the key of a table row. Numbers that the
  program computes itself and only ever uses as integers (timestamps, keys) are
  integers here.

  The virality score is different: the program never computes it. It is whatever the
  \<^verbatim>\<open>virality_score\<close> member of a parsed JSON draft holds, passed through the unchecked
  cast of line 143 and copied at line 298. So it is a value of the source language: a
  number (not necessarily whole), a string, a boolean, \<^verbatim>\<open>null\<close>, or \<^verbatim>\<open>undefined\<close>
  when the member is missing (nested objects and arrays are left out).
\<close>

datatype js_value = JsNumber real | JsString string | JsBoolean bool | JsNull | JsUndefined

record Post =
  title :: string
  content :: string
  thumbnail_url :: string
  thumbnail_prompt :: "string option"
  style :: string
  virality_score :: js_value
  created_at :: int

record Reminder =
  postId :: nat
  postTitle :: string
  time :: int
  notified :: bool

subsection \<open>Tables of the local database\<close>

text \<open>
  A table with an auto-incremented primary key: its rows in key order and the next key
  to hand out (keys start at 1). The operations follow what the source relies on from
  its storage library: \<^verbatim>\<open>add\<close>/\<^verbatim>\<open>bulkAdd\<close> append under fresh keys,
  \<^verbatim>\<open>delete\<close> resolves whether or not the key is present, and \<^verbatim>\<open>update\<close> resolves
  with the number of rows it changed (0 when the key is absent).
\<close>

record 'a table =
  rows :: "(nat \<times> 'a) list"
  next_key :: nat

datatype 'a promise = Rejected | Resolved 'a

datatype completion = Normal | Thrown

definition empty_table :: "'a table" where
  "empty_table = \<lparr>rows = [], next_key = 1\<rparr>"

definition table_keys :: "'a table \<Rightarrow> nat list" where
  "table_keys t = map fst (rows t)"

definition table_count :: "'a table \<Rightarrow> nat" where
  "table_count t = length (rows t)"

definition table_add :: "'a \<Rightarrow> 'a table \<Rightarrow> 'a table" where
  "table_add x t = \<lparr>rows = rows t @ [(next_key t, x)], next_key = Suc (next_key t)\<rparr>"

fun table_bulkAdd :: "'a list \<Rightarrow> 'a table \<Rightarrow> 'a table" where
  "table_bulkAdd [] t = t"
| "table_bulkAdd (x # xs) t = table_bulkAdd xs (table_add x t)"

definition table_delete :: "nat \<Rightarrow> 'a table \<Rightarrow> 'a table promise" where
  "table_delete k t = Resolved (t\<lparr>rows := filter (\<lambda>row. fst row \<noteq> k) (rows t)\<rparr>)"

definition table_update :: "nat \<Rightarrow> ('a \<Rightarrow> 'a) \<Rightarrow> 'a table \<Rightarrow> ('a table \<times> nat) promise" where
  "table_update k f t =
     Resolved (t\<lparr>rows := map (\<lambda>row. if fst row = k then (fst row, f (snd row)) else row) (rows t)\<rparr>,
               length (filter (\<lambda>row. fst row = k \<and> f (snd row) \<noteq> snd row) (rows t)))"

record PostBankDB =
  posts :: "Post table"
  reminders :: "Reminder table"

text \<open>The live query of the post list: \<^verbatim>\<open>orderBy("created_at").reverse().toArray()\<close>.\<close>

definition live_posts :: "PostBankDB \<Rightarrow> (nat \<times> Post) list" where
  "live_posts d = rev (sort_key (\<lambda>row. created_at (snd row)) (rows (posts d)))"

section \<open>Number arithmetic of the source language\<close>

text \<open>
  The quotient and the product in \<^verbatim>\<open>Math.ceil(totalToGen / chunkSize)\<close> and
  \<^verbatim>\<open>Math.round(((i + 1) / iterations) * 100)\<close> are double-precision operations: the
  exact result rounded to the nearest number with a 53-bit significand, ties to even.
  \<open>fl\<close> is that rounding on the normal range (no overflow, no subnormals, which the
  magnitudes of this program never reach): the value is scaled by powers of two until
  it lies in \<open>[2^52, 2^53)\<close>, rounded to an integer there and scaled back.
  \<^verbatim>\<open>Math.ceil\<close> and \<^verbatim>\<open>Math.round\<close> are exact (\<^verbatim>\<open>Math.round\<close> rounds halves up).
\<close>

function scale_down :: "real \<Rightarrow> real \<Rightarrow> real \<times> real" where
  "scale_down m u = (if 2 ^ 53 \<le> m then scale_down (m / 2) (2 * u) else (m, u))"
  by pat_completeness auto
termination
proof (relation "measure (\<lambda>(m, u). nat \<lfloor>m\<rfloor>)")
  show "wf (measure (\<lambda>(m, u). nat \<lfloor>m\<rfloor>))" by simp
next
  fix m u :: real
  assume h: "2 ^ 53 \<le> m"
  have a: "of_int \<lfloor>m / 2\<rfloor> \<le> m / 2" by linarith
  have b: "m - 1 < of_int \<lfloor>m\<rfloor>" by linarith
  have "(2::real) \<le> 2 ^ 53" by simp
  then have c: "2 \<le> m" using h by linarith
  have "of_int \<lfloor>m / 2\<rfloor> < (of_int \<lfloor>m\<rfloor> :: real)"
    using a b c by linarith
  then have "\<lfloor>m / 2\<rfloor> < \<lfloor>m\<rfloor>" by simp
  moreover have "0 < \<lfloor>m\<rfloor>" using c by linarith
  ultimately have "nat \<lfloor>m / 2\<rfloor> < nat \<lfloor>m\<rfloor>" by linarith
  then show "((m / 2, 2 * u), (m, u)) \<in> measure (\<lambda>(m, u). nat \<lfloor>m\<rfloor>)"
    unfolding measure_def inv_image_def by simp
qed

declare scale_down.simps [simp del]

function scale_up :: "real \<Rightarrow> real \<Rightarrow> real \<times> real" where
  "scale_up m u = (if 0 < m \<and> m < 2 ^ 52 then scale_up (2 * m) (u / 2) else (m, u))"
  by pat_completeness auto
termination
proof (relation "measure (\<lambda>(m, u). nat \<lceil>2 ^ 52 / m\<rceil>)")
  show "wf (measure (\<lambda>(m, u). nat \<lceil>2 ^ 52 / m\<rceil>))" by simp
next
  fix m u :: real
  assume h: "0 < m \<and> m < 2 ^ 52"
  define y where "y = 2 ^ 52 / m"
  have y1: "1 < y" using h by (simp add: y_def)
  have e: "2 ^ 52 / (2 * m) = y / 2" by (simp add: y_def)
  have a: "of_int \<lceil>y / 2\<rceil> < y / 2 + 1" by linarith
  have b: "y \<le> of_int \<lceil>y\<rceil>" by linarith
  have "2 \<le> \<lceil>y\<rceil>" using y1 by linarith
  then have c: "(2::real) \<le> of_int \<lceil>y\<rceil>" by linarith
  have "of_int \<lceil>y / 2\<rceil> < (of_int \<lceil>y\<rceil> :: real)"
    using a b c by linarith
  then have "\<lceil>y / 2\<rceil> < \<lceil>y\<rceil>" by simp
  moreover have "0 < \<lceil>y\<rceil>" using y1 by linarith
  ultimately have "nat \<lceil>2 ^ 52 / (2 * m)\<rceil> < nat \<lceil>2 ^ 52 / m\<rceil>"
    unfolding e y_def [symmetric] by linarith
  then show "((2 * m, u / 2), (m, u)) \<in> measure (\<lambda>(m, u). nat \<lceil>2 ^ 52 / m\<rceil>)"
    unfolding measure_def inv_image_def by simp
qed

declare scale_up.simps [simp del]

definition round_half_even :: "real \<Rightarrow> int" where
  "round_half_even m =
     (let f = \<lfloor>m\<rfloor>; d = m - of_int f
      in if d < 1 / 2 then f else if 1 / 2 < d then f + 1 else if even f then f else f + 1)"

definition fl_pos :: "real \<Rightarrow> real" where
  "fl_pos x =
     (case scale_down x 1 of (m, u) \<Rightarrow>
        case scale_up m u of (m', u') \<Rightarrow> of_int (round_half_even m') * u')"

definition fl :: "real \<Rightarrow> real" where
  "fl x = (if x = 0 then 0 else if x < 0 then - fl_pos (- x) else fl_pos x)"

definition Math_ceil :: "real \<Rightarrow> int" where
  "Math_ceil x = \<lceil>x\<rceil>"

definition Math_round :: "real \<Rightarrow> int" where
  "Math_round x = \<lfloor>x + 1 / 2\<rfloor>"

section \<open>The external services\<close>

text \<open>
  A draft as the text service returns it, and what \<^verbatim>\<open>JSON.parse(response.text || "{}")\<close>
  can make of a response: text that is not JSON (the parse throws), JSON without a
  \<^verbatim>\<open>posts\<close> member (which includes the \<^verbatim>\<open>"{}"\<close> substituted for an empty text), or
  JSON whose \<^verbatim>\<open>posts\<close> member is a list of drafts.
\<close>

record draft =
  draft_title :: string
  draft_content :: string
  draft_virality_score :: js_value

datatype response_json = NotJson | NoPostsMember | PostsMember "draft list"

text \<open>
  \<^verbatim>\<open>generatePostsBulk\<close> (lines 111-148): the request may reject; otherwise the
  \<^verbatim>\<open>try\<close> block returns \<^verbatim>\<open>data.posts\<close>, which is \<^verbatim>\<open>undefined\<close> (\<open>None\<close>) when the
  member is missing, and the \<^verbatim>\<open>catch\<close> block returns the empty list.
\<close>

definition generatePostsBulk ::
  "string \<Rightarrow> string \<Rightarrow> int \<Rightarrow> response_json promise \<Rightarrow> draft list option promise" where
  "generatePostsBulk topic sty count response =
     (case response of
        Rejected \<Rightarrow> Rejected
      | Resolved NotJson \<Rightarrow> Resolved (Some [])
      | Resolved NoPostsMember \<Rightarrow> Resolved None
      | Resolved (PostsMember ds) \<Rightarrow> Resolved (Some ds))"

text \<open>
  \<^verbatim>\<open>generateThumbnail\<close> (lines 150-179). The world of one call: the answer of the
  prompt-writing request, the answer of the image request (the \<^verbatim>\<open>inlineData\<close> of each
  part, if any), and the rendering of the \<^verbatim>\<open>Math.random()\<close> it may draw.
\<close>

record thumb_world =
  promptResponse :: "string promise"
  imageResponse :: "string option list promise"
  inner_random :: string

definition picsum :: "string \<Rightarrow> string" where
  "picsum r = ''https://picsum.photos/seed/'' @ r @ ''/800/450''"

fun first_inline :: "string option list \<Rightarrow> string option" where
  "first_inline [] = None"
| "first_inline (Some d # ps) = Some d"
| "first_inline (None # ps) = first_inline ps"

definition thumbnail_prompt_for :: "string option \<Rightarrow> thumb_world \<Rightarrow> string promise" where
  "thumbnail_prompt_for customPrompt tw =
     (case customPrompt of
        Some (c # cs) \<Rightarrow> Resolved (c # cs)
      | _ \<Rightarrow> (case promptResponse tw of
                Rejected \<Rightarrow> Rejected
              | Resolved t \<Rightarrow>
                  Resolved (if t = [] then ''Professional workspace with AI elements'' else t)))"

definition generateThumbnail ::
  "string \<Rightarrow> string option \<Rightarrow> thumb_world \<Rightarrow> (string \<times> string) promise" where
  "generateThumbnail postContent customPrompt tw =
     (case thumbnail_prompt_for customPrompt tw of
        Rejected \<Rightarrow> Rejected
      | Resolved prompt \<Rightarrow>
          (case imageResponse tw of
             Rejected \<Rightarrow> Rejected
           | Resolved parts \<Rightarrow>
               (case first_inline parts of
                  Some d \<Rightarrow> Resolved (''data:image/png;base64,'' @ d, prompt)
                | None \<Rightarrow> Resolved (picsum (inner_random tw), prompt))))"

text \<open>
  What a bulk generation meets outside the program: the answer to the text request of
  iteration \<open>i\<close>, and for draft \<open>j\<close> of iteration \<open>i\<close> the thumbnail world, the
  rendering of \<^verbatim>\<open>Math.random()\<close> at line 282 and the reading of \<^verbatim>\<open>Date.now()\<close> at
  line 299.
\<close>

record world =
  text_service :: "nat \<Rightarrow> response_json promise"
  thumb_service :: "nat \<Rightarrow> nat \<Rightarrow> thumb_world"
  Math_random :: "nat \<Rightarrow> nat \<Rightarrow> string"
  Date_now :: "nat \<Rightarrow> nat \<Rightarrow> int"

text \<open>
  The notification surface: the global \<^verbatim>\<open>Notification\<close> may be missing (the test
  \<^verbatim>\<open>"Notification" in window\<close> of line 87), otherwise it carries a permission.
\<close>

datatype notification_api = NoNotificationAPI | Permission string

section \<open>Application state and effects\<close>

text \<open>
  The part of the component state that the modelled handlers read or write, the
  database, and a trace of what the handlers do to the outside: text requests with the
  requested count, \<^verbatim>\<open>setProgress\<close> calls, alerts, console errors and notifications.
\<close>

datatype event =
    TextRequest int
  | Progress int
  | Alert string
  | ConsoleError string
  | ShowNotification string string

record app =
  db :: PostBankDB
  notification :: notification_api
  genTopic :: string
  genStyle :: string
  genCount :: int
  isGenerating :: bool
  progress :: int
  showGenModal :: bool
  selectedPost :: "(nat \<times> Post) option"
  isEditing :: bool
  editedTitle :: string
  editedContent :: string
  customThumbPrompt :: string
  trace :: "event list"

definition emit :: "event \<Rightarrow> app \<Rightarrow> app" where
  "emit e s = s\<lparr>trace := trace s @ [e]\<rparr>"

definition setProgress :: "int \<Rightarrow> app \<Rightarrow> app" where
  "setProgress p s = emit (Progress p) (s\<lparr>progress := p\<rparr>)"

definition store_posts :: "Post list \<Rightarrow> app \<Rightarrow> app" where
  "store_posts ps s = s\<lparr>db := (db s)\<lparr>posts := table_bulkAdd ps (posts (db s))\<rparr>\<rparr>"

definition text_requests :: "event list \<Rightarrow> int list" where
  "text_requests tr = concat (map (\<lambda>e. case e of TextRequest c \<Rightarrow> [c] | _ \<Rightarrow> []) tr)"

definition progress_reports :: "event list \<Rightarrow> int list" where
  "progress_reports tr = concat (map (\<lambda>e. case e of Progress p \<Rightarrow> [p] | _ \<Rightarrow> []) tr)"

definition alerts :: "event list \<Rightarrow> string list" where
  "alerts tr = concat (map (\<lambda>e. case e of Alert m \<Rightarrow> [m] | _ \<Rightarrow> []) tr)"

definition notifications :: "event list \<Rightarrow> (string \<times> string) list" where
  "notifications tr =
     concat (map (\<lambda>e. case e of ShowNotification t b \<Rightarrow> [(t, b)] | _ \<Rightarrow> []) tr)"

section \<open>Seeding (lines 237-262)\<close>

text \<open>The two sample posts (their texts shortened), added when the table is empty.\<close>

definition seed_posts :: "int \<Rightarrow> int \<Rightarrow> Post list" where
  "seed_posts now1 now2 =
     [\<lparr>title = ''The 2026 Digital CEO Manifesto'', content = ''2025 is almost in the rearview mirror...'',
       thumbnail_url = ''https://picsum.photos/seed/ceo/800/450'', thumbnail_prompt = None,
       style = ''ceo'', virality_score = JsNumber 95, created_at = now1 - 10000\<rparr>,
      \<lparr>title = ''The Death of the Commodity Freelancer'', content = ''In 2025, you could still survive...'',
       thumbnail_url = ''https://picsum.photos/seed/specialist/800/450'', thumbnail_prompt = None,
       style = ''ceo'', virality_score = JsNumber 92, created_at = now2 - 20000\<rparr>]"

definition seed :: "int \<Rightarrow> int \<Rightarrow> app \<Rightarrow> app" where
  "seed now1 now2 s =
     (if table_count (posts (db s)) = 0 then store_posts (seed_posts now1 now2) s else s)"

section \<open>Bulk generation (lines 264-316)\<close>

definition chunkSize :: int where
  "chunkSize = 5"

definition iterations_of :: "int \<Rightarrow> int" where
  "iterations_of totalToGen = Math_ceil (fl (of_int totalToGen / of_int chunkSize))"

definition currentBatchSize :: "int \<Rightarrow> nat \<Rightarrow> int" where
  "currentBatchSize totalToGen i = min chunkSize (totalToGen - int i * chunkSize)"

definition progress_value :: "nat \<Rightarrow> int \<Rightarrow> int" where
  "progress_value i iterations =
     Math_round (fl (fl (of_int (int i + 1) / of_int iterations) * 100))"

text \<open>One draft of chunk \<open>i\<close> at position \<open>j\<close> (lines 280-300).\<close>

definition draft_post :: "world \<Rightarrow> string \<Rightarrow> nat \<Rightarrow> nat \<Rightarrow> draft \<Rightarrow> Post" where
  "draft_post w sty i j p =
     (case (case generateThumbnail (draft_content p) None (thumb_service w i j) of
              Rejected \<Rightarrow> (picsum (Math_random w i j), [])
            | Resolved thumbResult \<Rightarrow> thumbResult) of
        (thumbnailUrl, thumbnailPrompt) \<Rightarrow>
          \<lparr>title = draft_title p, content = draft_content p,
           thumbnail_url = thumbnailUrl, thumbnail_prompt = Some thumbnailPrompt,
           style = sty, virality_score = draft_virality_score p,
           created_at = Date_now w i j - (int i * chunkSize + int j)\<rparr>)"

fun draft_loop :: "world \<Rightarrow> string \<Rightarrow> nat \<Rightarrow> nat \<Rightarrow> draft list \<Rightarrow> Post list" where
  "draft_loop w sty i j [] = []"
| "draft_loop w sty i j (p # ps) = draft_post w sty i j p # draft_loop w sty i (Suc j) ps"

text \<open>
  The loop over the chunks. A rejected text request, and the \<^verbatim>\<open>TypeError\<close> of
  \<^verbatim>\<open>generated.length\<close> on \<^verbatim>\<open>undefined\<close>, leave the loop with what has been done so far.
\<close>

function chunk_loop ::
  "world \<Rightarrow> string \<Rightarrow> string \<Rightarrow> int \<Rightarrow> int \<Rightarrow> nat \<Rightarrow> app \<Rightarrow> app \<times> completion" where
  "chunk_loop w topic sty totalToGen iterations i s =
     (if int i < iterations then
        (case generatePostsBulk topic sty (currentBatchSize totalToGen i) (text_service w i) of
           Rejected \<Rightarrow> (emit (TextRequest (currentBatchSize totalToGen i)) s, Thrown)
         | Resolved None \<Rightarrow> (emit (TextRequest (currentBatchSize totalToGen i)) s, Thrown)
         | Resolved (Some generated) \<Rightarrow>
             chunk_loop w topic sty totalToGen iterations (Suc i)
               (setProgress (progress_value i iterations)
                  (store_posts (draft_loop w sty i 0 generated)
                     (emit (TextRequest (currentBatchSize totalToGen i)) s))))
      else (s, Normal))"
  by pat_completeness auto
termination
  by (relation "measure (\<lambda>(w, topic, sty, totalToGen, iterations, i, s). nat (iterations - int i))")
     auto

declare chunk_loop.simps [simp del]

definition handleBulkGenerate :: "world \<Rightarrow> app \<Rightarrow> app" where
  "handleBulkGenerate w s =
     (if genTopic s = [] then s
      else
        (case chunk_loop w (genTopic s) (genStyle s) (genCount s) (iterations_of (genCount s)) 0
                (setProgress 0 (s\<lparr>isGenerating := True\<rparr>)) of
           (s1, Normal) \<Rightarrow>
             setProgress 0 (s1\<lparr>showGenModal := False, genTopic := [], isGenerating := False\<rparr>)
         | (s1, Thrown) \<Rightarrow>
             setProgress 0
               ((emit (Alert ''Generation encountered an error. Some posts may have been saved.'')
                   (emit (ConsoleError ''Generation failed'') s1))\<lparr>isGenerating := False\<rparr>)))"

text \<open>
  For stating results: whether the text request of chunk \<open>i\<close> yields a list of drafts
  (possibly the empty list of the \<^verbatim>\<open>catch\<close> block), the posts built from it, and
  the state a completed chunk leaves behind.
\<close>

definition chunk_completes :: "world \<Rightarrow> nat \<Rightarrow> bool" where
  "chunk_completes w i =
     (case text_service w i of
        Resolved NotJson \<Rightarrow> True
      | Resolved (PostsMember ds) \<Rightarrow> True
      | _ \<Rightarrow> False)"

definition chunk_posts :: "world \<Rightarrow> string \<Rightarrow> nat \<Rightarrow> Post list" where
  "chunk_posts w sty i =
     (case text_service w i of
        Resolved (PostsMember ds) \<Rightarrow> draft_loop w sty i 0 ds
      | _ \<Rightarrow> [])"

definition chunk_done :: "world \<Rightarrow> string \<Rightarrow> int \<Rightarrow> int \<Rightarrow> app \<Rightarrow> nat \<Rightarrow> app" where
  "chunk_done w sty totalToGen iterations s i =
     setProgress (progress_value i iterations)
       (store_posts (chunk_posts w sty i) (emit (TextRequest (currentBatchSize totalToGen i)) s))"

section \<open>Deleting and editing (lines 318-322 and 366-382)\<close>

definition handleDelete :: "nat option \<Rightarrow> bool \<Rightarrow> app \<Rightarrow> app \<times> completion" where
  "handleDelete ident confirmed s =
     (case ident of
        None \<Rightarrow> (s, Normal)
      | Some k \<Rightarrow>
          if k = 0 then (s, Normal)
          else if confirmed then
            (case table_delete k (posts (db s)) of
               Rejected \<Rightarrow> (s, Thrown)
             | Resolved t \<Rightarrow>
                 (if map_option fst (selectedPost s) = Some k
                  then s\<lparr>db := (db s)\<lparr>posts := t\<rparr>, selectedPost := None\<rparr>
                  else s\<lparr>db := (db s)\<lparr>posts := t\<rparr>\<rparr>, Normal))
          else (s, Normal))"

definition handleSaveEdit :: "app \<Rightarrow> app" where
  "handleSaveEdit s =
     (case selectedPost s of
        None \<Rightarrow> s
      | Some (k, p) \<Rightarrow>
          if k = 0 then s
          else
            (case table_update k (\<lambda>q. q\<lparr>title := editedTitle s, content := editedContent s\<rparr>)
                    (posts (db s)) of
               Rejected \<Rightarrow> emit (ConsoleError ''Failed to save edit'') s
             | Resolved (t, n) \<Rightarrow>
                 s\<lparr>db := (db s)\<lparr>posts := t\<rparr>,
                   selectedPost := Some (k, p\<lparr>title := editedTitle s, content := editedContent s\<rparr>),
                   isEditing := False\<rparr>))"

text \<open>
  \<^verbatim>\<open>handleRegenerateThumbnail\<close> (lines 342-364), the other handler that updates a
  stored post. \<^verbatim>\<open>handleOptimize\<close> and \<^verbatim>\<open>handleTranslate\<close> only fill the edit
  fields and write nothing to the store.
\<close>

definition handleRegenerateThumbnail :: "nat \<times> Post \<Rightarrow> thumb_world \<Rightarrow> app \<Rightarrow> app" where
  "handleRegenerateThumbnail post tw s =
     (if fst post = 0 then s
      else
        (case generateThumbnail (content (snd post)) (Some (customThumbPrompt s)) tw of
           Rejected \<Rightarrow> emit (ConsoleError ''Failed to regenerate thumbnail'') s
         | Resolved thumbResult \<Rightarrow>
             (case table_update (fst post)
                     (\<lambda>q. q\<lparr>thumbnail_url := fst thumbResult,
                            thumbnail_prompt := Some (snd thumbResult)\<rparr>)
                     (posts (db s)) of
                Rejected \<Rightarrow> emit (ConsoleError ''Failed to regenerate thumbnail'') s
              | Resolved (t, n) \<Rightarrow>
                  (case selectedPost s of
                     None \<Rightarrow> s\<lparr>db := (db s)\<lparr>posts := t\<rparr>, customThumbPrompt := []\<rparr>
                   | Some (k, q) \<Rightarrow>
                       if k = fst post
                       then s\<lparr>db := (db s)\<lparr>posts := t\<rparr>,
                              selectedPost := Some (k, q\<lparr>thumbnail_url := fst thumbResult,
                                                        thumbnail_prompt := Some (snd thumbResult)\<rparr>),
                              customThumbPrompt := []\<rparr>
                       else s\<lparr>db := (db s)\<lparr>posts := t\<rparr>, customThumbPrompt := []\<rparr>))))"

section \<open>Reminders (lines 86-99, 218-234 and 434-448)\<close>

definition requestNotificationPermission :: "string \<Rightarrow> notification_api \<Rightarrow> bool \<times> notification_api" where
  "requestNotificationPermission answer api =
     (case api of
        NoNotificationAPI \<Rightarrow> (False, api)
      | Permission p \<Rightarrow>
          if p = ''granted'' then (True, api) else (answer = ''granted'', Permission answer))"

text \<open>
  \<^verbatim>\<open>sendNotification\<close> reads \<^verbatim>\<open>Notification.permission\<close> without the guard of line 87:
  where the global is missing, evaluating it throws.
\<close>

definition sendNotification :: "notification_api \<Rightarrow> string \<Rightarrow> string \<Rightarrow> event promise" where
  "sendNotification api ttl body =
     (case api of
        NoNotificationAPI \<Rightarrow> Rejected
      | Permission p \<Rightarrow>
          if p = ''granted'' then Resolved (ShowNotification ttl body)
          else Resolved (Alert (''REMINDER: '' @ ttl @ [CHR 0x0A] @ body)))"

definition handleSetReminder :: "nat \<times> Post \<Rightarrow> int option \<Rightarrow> string \<Rightarrow> app \<Rightarrow> app" where
  "handleSetReminder post reminderTime answer s =
     (case reminderTime of
        None \<Rightarrow> s
      | Some t \<Rightarrow>
          emit (Alert ''Reminder set successfully!'')
            (s\<lparr>notification := snd (requestNotificationPermission answer (notification s)),
               db := (db s)\<lparr>reminders :=
                 table_add \<lparr>postId = fst post, postTitle = title (snd post), time = t, notified = False\<rparr>
                   (reminders (db s))\<rparr>\<rparr>))"

text \<open>
  The query of one tick: the \<^verbatim>\<open>time\<close> index up to \<open>now\<close> (ascending, equal times in
  key order), filtered by \<^verbatim>\<open>!r.notified\<close>.
\<close>

definition dueReminders :: "int \<Rightarrow> Reminder table \<Rightarrow> (nat \<times> Reminder) list" where
  "dueReminders now t =
     filter (\<lambda>row. \<not> notified (snd row))
       (filter (\<lambda>row. time (snd row) \<le> now) (sort_key (\<lambda>row. time (snd row)) (rows t)))"

definition mark_notified :: "nat \<Rightarrow> app \<Rightarrow> app promise" where
  "mark_notified k s =
     (case table_update k (\<lambda>r. r\<lparr>notified := True\<rparr>) (reminders (db s)) of
        Rejected \<Rightarrow> Rejected
      | Resolved (t, n) \<Rightarrow> Resolved (s\<lparr>db := (db s)\<lparr>reminders := t\<rparr>\<rparr>))"

fun reminder_loop :: "(nat \<times> Reminder) list \<Rightarrow> app \<Rightarrow> app \<times> completion" where
  "reminder_loop [] s = (s, Normal)"
| "reminder_loop (r # rs) s =
     (case sendNotification (notification s) ''Post Reminder'' (''Time to share: '' @ postTitle (snd r)) of
        Rejected \<Rightarrow> (s, Thrown)
      | Resolved e \<Rightarrow>
          (case mark_notified (fst r) (emit e s) of
             Rejected \<Rightarrow> (emit e s, Thrown)
           | Resolved s' \<Rightarrow> reminder_loop rs s'))"

definition tick :: "int \<Rightarrow> app \<Rightarrow> app \<times> completion" where
  "tick now s = reminder_loop (dueReminders now (reminders (db s))) s"

section \<open>Predicates and sample inputs used by the results\<close>

text \<open>A stored score is as it should be when it is a whole number from 0 to 100.\<close>

definition score_in_range :: "js_value \<Rightarrow> bool" where
  "score_in_range v =
     (case v of
        JsNumber x \<Rightarrow> of_int \<lfloor>x\<rfloor> = x \<and> 0 \<le> x \<and> x \<le> 100
      | _ \<Rightarrow> False)"

text \<open>The scores in the posts table, in key order.\<close>

definition score_column :: "app \<Rightarrow> js_value list" where
  "score_column s = map virality_score (map snd (rows (posts (db s))))"

text \<open>
  The scores that the text service returned for chunk \<open>i\<close>, and the number of chunks
  among the first \<open>n\<close> that a run gets through: it stops at the first chunk whose text
  request does not yield a list.
\<close>

definition chunk_scores :: "world \<Rightarrow> nat \<Rightarrow> js_value list" where
  "chunk_scores w i =
     (case text_service w i of
        Resolved (PostsMember ds) \<Rightarrow> map draft_virality_score ds
      | _ \<Rightarrow> [])"

fun chunks_completed :: "world \<Rightarrow> nat \<Rightarrow> nat" where
  "chunks_completed w 0 = 0"
| "chunks_completed w (Suc n) =
     (if chunks_completed w n = n \<and> chunk_completes w n then Suc n else chunks_completed w n)"

definition scores_in_range :: "Post table \<Rightarrow> bool" where
  "scores_in_range t = list_all (\<lambda>row. score_in_range (virality_score (snd row))) (rows t)"

definition drafts_in_range :: "world \<Rightarrow> nat \<Rightarrow> bool" where
  "drafts_in_range w i =
     (case text_service w i of
        Resolved (PostsMember ds) \<Rightarrow> list_all (\<lambda>d. score_in_range (draft_virality_score d)) ds
      | _ \<Rightarrow> True)"

definition draft_a :: draft where
  "draft_a = \<lparr>draft_title = ''Alpha'', draft_content = ''first'', draft_virality_score = JsNumber 95\<rparr>"

definition draft_b :: draft where
  "draft_b = \<lparr>draft_title = ''Beta'', draft_content = ''second'', draft_virality_score = JsNumber 40\<rparr>"

definition draft_hot :: draft where
  "draft_hot = \<lparr>draft_title = ''Gamma'', draft_content = ''third'', draft_virality_score = JsNumber 150\<rparr>"

definition draft_fraction :: draft where
  "draft_fraction =
     \<lparr>draft_title = ''Delta'', draft_content = ''fourth'', draft_virality_score = JsNumber (175 / 2)\<rparr>"

definition draft_missing :: draft where
  "draft_missing =
     \<lparr>draft_title = ''Epsilon'', draft_content = ''fifth'', draft_virality_score = JsUndefined\<rparr>"

definition thumb_ok :: thumb_world where
  "thumb_ok = \<lparr>promptResponse = Resolved ''a desk'', imageResponse = Resolved [None, Some ''iVBOR''],
                inner_random = ''0.25''\<rparr>"

definition thumb_down :: thumb_world where
  "thumb_down = \<lparr>promptResponse = Resolved ''a desk'', imageResponse = Rejected,
                  inner_random = ''0.25''\<rparr>"

text \<open>
  A world in which every text request returns two drafts, every image request succeeds
  and each thumbnail takes two seconds of wall-clock time.
\<close>

definition world_ok :: world where
  "world_ok =
     \<lparr>text_service = (\<lambda>i. Resolved (PostsMember [draft_a, draft_b])),
      thumb_service = (\<lambda>i j. thumb_ok),
      Math_random = (\<lambda>i j. if j = 0 then ''0.1'' else ''0.7''),
      Date_now = (\<lambda>i j. 1000 + 2000 * (5 * int i + int j + 1))\<rparr>"

definition app0 :: app where
  "app0 =
     \<lparr>db = \<lparr>posts = empty_table, reminders = empty_table\<rparr>,
      notification = Permission ''default'',
      genTopic = ''pricing'', genStyle = ''ceo'', genCount = 5,
      isGenerating = False, progress = 0, showGenModal = True,
      selectedPost = None, isEditing = False, editedTitle = [], editedContent = [],
      customThumbPrompt = [], trace = []\<rparr>"

definition reminder0 :: Reminder where
  "reminder0 = \<lparr>postId = 1, postTitle = ''Alpha'', time = 100, notified = False\<rparr>"

definition app_reminder :: app where
  "app_reminder =
     app0\<lparr>db := \<lparr>posts = empty_table, reminders = table_add reminder0 empty_table\<rparr>\<rparr>"

text \<open>Worlds whose text service gives out: at once, or after two good chunks.\<close>

definition world_no_posts :: world where
  "world_no_posts = world_ok\<lparr>text_service := (\<lambda>i. Resolved NoPostsMember)\<rparr>"

definition world_not_json :: world where
  "world_not_json = world_ok\<lparr>text_service := (\<lambda>i. Resolved NotJson)\<rparr>"

definition world_outage :: world where
  "world_outage =
     world_ok\<lparr>text_service := (\<lambda>i. if i < 2 then Resolved (PostsMember [draft_a, draft_b]) else Rejected)\<rparr>"

definition world_no_images :: world where
  "world_no_images = world_ok\<lparr>thumb_service := (\<lambda>i j. thumb_down)\<rparr>"

definition world_hot :: world where
  "world_hot =
     world_ok\<lparr>text_service := (\<lambda>i. Resolved (PostsMember [draft_hot, draft_fraction, draft_missing]))\<rparr>"

definition generation_failed :: string where
  "generation_failed = ''Generation encountered an error. Some posts may have been saved.''"

definition post_alpha :: Post where
  "post_alpha =
     \<lparr>title = ''Alpha'', content = ''first'', thumbnail_url = ''data:image/png;base64,iVBOR'',
      thumbnail_prompt = Some ''a desk'', style = ''ceo'', virality_score = JsNumber 95, created_at = 3000\<rparr>"

text \<open>
  A state with that post stored under key 1 and selected, an edit typed in and a custom
  thumbnail prompt entered.
\<close>

definition app_editing :: app where
  "app_editing =
     app0\<lparr>db := \<lparr>posts = table_add post_alpha empty_table, reminders = empty_table\<rparr>,
          selectedPost := Some (1, post_alpha), isEditing := True,
          editedTitle := ''Alpha, revised'', editedContent := ''first, revised'',
          customThumbPrompt := ''a lighthouse''\<rparr>"

text \<open>A browser without the \<^verbatim>\<open>Notification\<close> global, with one reminder that is due.\<close>

definition app_no_api :: app where
  "app_no_api = app_reminder\<lparr>notification := NoNotificationAPI\<rparr>"

text \<open>
  The event that \<^verbatim>\<open>sendNotification\<close> produces for a reminder when it returns: the
  notification if the permission is granted, the alert otherwise.
\<close>

definition reminder_event :: "string \<Rightarrow> Reminder \<Rightarrow> event" where
  "reminder_event p r =
     (if p = ''granted'' then ShowNotification ''Post Reminder'' (''Time to share: '' @ postTitle r)
      else Alert (''REMINDER: '' @ ''Post Reminder'' @ [CHR 0x0A] @ ''Time to share: '' @ postTitle r))"

section \<open>Double-precision rounding\<close>

lemma scale_down_small: "m < 2 ^ 53 \<Longrightarrow> scale_down m u = (m, u)"
  by (subst scale_down.simps) simp

lemma scale_up_spec:
  "0 < m \<Longrightarrow> m < 2 ^ 53 \<Longrightarrow> 0 < u \<Longrightarrow>
   fst (scale_up m u) * snd (scale_up m u) = m * u \<and> 2 ^ 52 \<le> fst (scale_up m u)
   \<and> fst (scale_up m u) < 2 ^ 53 \<and> 0 < snd (scale_up m u)"
proof (induction m u rule: scale_up.induct)
  case (1 m u)
  show ?case
  proof (cases "m < 2 ^ 52")
    case True
    have step: "scale_up m u = scale_up (2 * m) (u / 2)"
      using True "1.prems"(1) by (subst scale_up.simps) simp
    have "fst (scale_up (2 * m) (u / 2)) * snd (scale_up (2 * m) (u / 2)) = 2 * m * (u / 2)
        \<and> 2 ^ 52 \<le> fst (scale_up (2 * m) (u / 2))
        \<and> fst (scale_up (2 * m) (u / 2)) < 2 ^ 53 \<and> 0 < snd (scale_up (2 * m) (u / 2))"
      using True "1.prems" by (intro "1.IH") simp_all
    then show ?thesis unfolding step by simp
  next
    case False
    have stop: "scale_up m u = (m, u)"
      using False by (subst scale_up.simps) simp
    show ?thesis unfolding stop using False "1.prems" by simp
  qed
qed

lemma scale_up_int:
  "0 < m \<Longrightarrow> m \<in> \<int> \<Longrightarrow> fst (scale_up m u) \<in> \<int>"
proof (induction m u rule: scale_up.induct)
  case (1 m u)
  show ?case
  proof (cases "m < 2 ^ 52")
    case True
    have step: "scale_up m u = scale_up (2 * m) (u / 2)"
      using True "1.prems"(1) by (subst scale_up.simps) simp
    have "fst (scale_up (2 * m) (u / 2)) \<in> \<int>"
      using True "1.prems" by (intro "1.IH") simp_all
    then show ?thesis unfolding step .
  next
    case False
    have stop: "scale_up m u = (m, u)"
      using False by (subst scale_up.simps) simp
    show ?thesis unfolding stop using "1.prems" by simp
  qed
qed

lemma round_half_even_near: "\<bar>of_int (round_half_even m) - m\<bar> \<le> 1 / 2"
proof -
  have "of_int \<lfloor>m\<rfloor> \<le> m" "m < of_int \<lfloor>m\<rfloor> + 1" by linarith+
  then show ?thesis
    unfolding round_half_even_def Let_def by (simp split: if_splits) 
qed

lemma round_half_even_of_int: "round_half_even (of_int z) = z"
  by (simp add: round_half_even_def)

lemma fl_pos_unfold:
  "0 < x \<Longrightarrow> x < 2 ^ 53 \<Longrightarrow>
   fl x = of_int (round_half_even (fst (scale_up x 1))) * snd (scale_up x 1)"
  by (simp add: fl_def fl_pos_def scale_down_small split: prod.splits)

lemma fl_near:
  assumes "0 < x" "x < 2 ^ 53"
  shows "\<bar>fl x - x\<bar> \<le> x / 2 ^ 53"
proof -
  define m where "m = fst (scale_up x 1)"
  define u where "u = snd (scale_up x 1)"
  have spec: "m * u = x" "2 ^ 52 \<le> m" "0 < u"
    using scale_up_spec [of x 1] assms by (simp_all add: m_def u_def)
  have "fl x - x = (of_int (round_half_even m) - m) * u"
    using fl_pos_unfold [OF assms] spec(1) by (simp add: m_def u_def algebra_simps)
  then have "\<bar>fl x - x\<bar> = \<bar>of_int (round_half_even m) - m\<bar> * u"
    using spec(3) by (simp add: abs_mult)
  also have "\<dots> \<le> 1 / 2 * u"
    using round_half_even_near [of m] spec(3) by (intro mult_right_mono) simp_all
  also have "\<dots> \<le> x / 2 ^ 53"
  proof -
    have "2 ^ 52 * u \<le> m * u" using spec(2,3) by (intro mult_right_mono) simp_all
    then have "2 ^ 52 * u \<le> x" using spec(1) by simp
    then show ?thesis by simp
  qed
  finally show ?thesis .
qed

lemma fl_of_int:
  assumes "0 < z" "z < 2 ^ 53"
  shows "fl (of_int z) = of_int z"
proof -
  have pos: "0 < (of_int z :: real)" "(of_int z :: real) < 2 ^ 53"
    using assms by simp_all
  define m where "m = fst (scale_up (of_int z) 1)"
  define u where "u = snd (scale_up (of_int z) 1)"
  have "m \<in> \<int>" unfolding m_def using pos(1) by (intro scale_up_int) simp_all
  then obtain k where k: "m = of_int k" by (auto elim: Ints_cases)
  have "m * u = of_int z"
    using scale_up_spec [of "of_int z" 1] pos by (simp add: m_def u_def)
  then show ?thesis
    using fl_pos_unfold [OF pos] by (simp add: m_def [symmetric] u_def [symmetric] k round_half_even_of_int)
qed

text \<open>The double nearest to one tenth, as a check of the rounding against a known value.\<close>

lemma fl_tenth: "fl (1 / 10) = 3602879701896397 / 36028797018963968"
  by (simp add: fl_def fl_pos_def round_half_even_def scale_down.simps scale_up.simps)

section \<open>Iteration count and progress values\<close>

lemma iterations_of_exact:
  assumes "1 \<le> C" "C \<le> 1000"
  shows "iterations_of C = (C + 4) div 5"
proof -
  define x :: real where "x = of_int C / 5"
  have xpos: "0 < x" "x \<le> 200" using assms by (simp_all add: x_def)
  have x53: "x < 2 ^ 53" using xpos by simp
  show ?thesis
  proof (cases "C mod 5 = 0")
    case True
    then have "5 dvd C" by presburger
    then obtain q where q: "C = 5 * q" by (auto simp: dvd_def)
    have xq: "x = of_int q" by (simp add: x_def q)
    have "0 < q" "q < 2 ^ 53" using assms q by simp_all
    then have "fl x = of_int q" unfolding xq by (rule fl_of_int)
    then have "\<lceil>fl x\<rceil> = q" by simp
    moreover have "(C + 4) div 5 = q" using q by presburger
    moreover have "iterations_of C = \<lceil>fl x\<rceil>"
      by (simp add: iterations_of_def Math_ceil_def chunkSize_def x_def)
    ultimately show ?thesis by simp
  next
    case False
    define q where "q = C div 5"
    define r where "r = C mod 5"
    have r: "1 \<le> r" "r \<le> 4" using False by (simp_all add: r_def)
    have C: "C = 5 * q + r" by (simp add: q_def r_def)
    have xqr: "x = of_int q + of_int r / 5" by (simp add: x_def C)
    have err: "\<bar>fl x - x\<bar> \<le> x / 2 ^ 53" by (rule fl_near [OF xpos(1) x53])
    have "x / 2 ^ 53 \<le> 200 / 2 ^ 53" using xpos by (simp add: divide_right_mono)
    also have "\<dots> < (1 / 10 :: real)" by simp
    finally have small: "\<bar>fl x - x\<bar> < 1 / 10" using err by linarith
    have rr: "1 / 5 \<le> real_of_int r / 5" "real_of_int r / 5 \<le> 4 / 5" using r by simp_all
    have lo: "of_int q < fl x" using small rr xqr by linarith
    have hi: "fl x \<le> of_int q + 1" using small rr xqr by linarith
    have "\<lceil>fl x\<rceil> = q + 1" using lo hi by (intro ceiling_unique) simp_all
    moreover have "(C + 4) div 5 = q + 1" using r C by presburger
    moreover have "iterations_of C = \<lceil>fl x\<rceil>"
      by (simp add: iterations_of_def Math_ceil_def chunkSize_def x_def)
    ultimately show ?thesis by simp
  qed
qed

lemma ceiling_fifth: "\<lceil>real_of_int C / 5\<rceil> = (C + 4) div 5"
proof -
  have "\<lceil>real_of_int C / real_of_int 5\<rceil> = - (- C div 5)"
    by (rule ceiling_divide_eq_div)
  then show ?thesis by simp
qed

lemma progress_value_near:
  assumes "0 < n" "n \<le> 200" "int i < n"
  shows "\<bar>fl (fl (of_int (int i + 1) / of_int n) * 100) - 100 * (of_int (int i + 1) / of_int n)\<bar> \<le> 1 / 8"
proof -
  define x :: real where "x = of_int (int i + 1) / of_int n"
  have x: "0 < x" "x \<le> 1" using assms by (simp_all add: x_def)
  have e1: "\<bar>fl x - x\<bar> \<le> x / 2 ^ 53" using x by (intro fl_near) simp_all
  have "x / 2 ^ 53 \<le> 1 / 2 ^ 53" using x by (simp add: divide_right_mono)
  then have e1': "\<bar>fl x - x\<bar> \<le> 1 / 2 ^ 53" using e1 by linarith
  have "(1::real) / 2 ^ 53 < 1 / 1000" by simp
  have "x / 2 ^ 53 < x" using x by simp
  then have a: "0 < fl x" using e1 by linarith
  have b: "fl x \<le> 1 + 1 / 2 ^ 53" using e1' x by linarith
  define y where "y = fl x * 100"
  have y: "0 < y" "y \<le> 128" using a b by (simp_all add: y_def)
  have e2: "\<bar>fl y - y\<bar> \<le> y / 2 ^ 53" using y by (intro fl_near) simp_all
  have "y / 2 ^ 53 \<le> 128 / 2 ^ 53" using y by (simp add: divide_right_mono)
  then have e2': "\<bar>fl y - y\<bar> \<le> 128 / 2 ^ 53" using e2 by linarith
  have eq: "y - 100 * x = 100 * (fl x - x)" by (simp add: y_def)
  have "\<bar>y - 100 * x\<bar> = 100 * \<bar>fl x - x\<bar>" unfolding eq abs_mult by simp
  then have "\<bar>y - 100 * x\<bar> \<le> 100 / 2 ^ 53" using e1' by simp
  moreover have "(100::real) / 2 ^ 53 < 1 / 16" "(128::real) / 2 ^ 53 < 1 / 16" by simp_all
  ultimately have "\<bar>fl y - 100 * x\<bar> \<le> 1 / 8" using e2' by linarith
  then show ?thesis unfolding y_def x_def .
qed

lemma progress_value_mono:
  assumes "0 < n" "n \<le> 200" "i \<le> j" "int j < n"
  shows "progress_value i n \<le> progress_value j n"
proof (cases "i = j")
  case True
  then show ?thesis by simp
next
  case False
  then have lt: "int i + 1 \<le> int j" using assms(3) by simp
  have ni: "int i < n" using assms by simp
  define a where "a = real_of_int (int i + 1)"
  define b where "b = real_of_int (int j + 1)"
  define m where "m = real_of_int n"
  have ab: "a + 1 \<le> b" using lt by (simp add: a_def b_def)
  have m: "0 < m" "m \<le> 200" using assms(1,2) by (simp_all add: m_def)
  have gap: "100 * (a / m) + 1 / 2 \<le> 100 * (b / m)"
  proof -
    have "1 / 2 \<le> 100 / m" using m by (simp add: field_simps)
    also have "\<dots> \<le> 100 * (b - a) / m"
      using ab m by (intro divide_right_mono) simp_all
    also have "\<dots> = 100 * (b / m) - 100 * (a / m)"
      by (simp add: diff_divide_distrib right_diff_distrib)
    finally show ?thesis by simp
  qed
  have "fl (fl (of_int (int i + 1) / of_int n) * 100) \<le> fl (fl (of_int (int j + 1) / of_int n) * 100)"
    using progress_value_near [OF assms(1,2) ni] progress_value_near [OF assms(1,2,4)] gap
    unfolding a_def b_def m_def by linarith
  then show ?thesis
    unfolding progress_value_def Math_round_def by (intro floor_mono) simp
qed

lemma fl_one: "fl 1 = 1"
  using fl_of_int [of 1] by simp

lemma fl_hundred: "fl 100 = 100"
  using fl_of_int [of 100] by simp

lemma progress_value_last:
  assumes "0 < n"
  shows "progress_value (nat n - 1) n = 100"
proof -
  have "int (nat n - 1) + 1 = n" using assms by simp
  then have "real_of_int (int (nat n - 1) + 1) / of_int n = 1" using assms by simp
  then show ?thesis
    by (simp add: progress_value_def fl_one fl_hundred Math_round_def)
qed

section \<open>The loop over the chunks\<close>

lemma chunk_loop_end:
  "\<not> int i < iterations \<Longrightarrow> chunk_loop w topic sty totalToGen iterations i s = (s, Normal)"
  by (subst chunk_loop.simps) simp

lemma chunk_loop_step:
  assumes "chunk_completes w i" "int i < iterations"
  shows "chunk_loop w topic sty totalToGen iterations i s =
         chunk_loop w topic sty totalToGen iterations (Suc i) (chunk_done w sty totalToGen iterations s i)"
  using assms
  by (subst chunk_loop.simps)
     (auto simp: chunk_completes_def chunk_posts_def chunk_done_def generatePostsBulk_def
           split: promise.splits response_json.splits)

lemma chunk_loop_fail:
  assumes "\<not> chunk_completes w i" "int i < iterations"
  shows "chunk_loop w topic sty totalToGen iterations i s =
         (emit (TextRequest (currentBatchSize totalToGen i)) s, Thrown)"
  using assms
  by (subst chunk_loop.simps)
     (auto simp: chunk_completes_def generatePostsBulk_def
           split: promise.splits response_json.splits)

lemma chunk_loop_run:
  assumes "\<forall>k. i \<le> k \<and> k < m \<longrightarrow> chunk_completes w k" "i \<le> m" "int m \<le> iterations"
  shows "chunk_loop w topic sty totalToGen iterations i s =
         chunk_loop w topic sty totalToGen iterations m
           (foldl (chunk_done w sty totalToGen iterations) s [i..<m])"
  using assms
proof (induction m)
  case 0
  then show ?case by simp
next
  case (Suc m)
  show ?case
  proof (cases "i = Suc m")
    case True
    then show ?thesis by simp
  next
    case False
    then have im: "i \<le> m" using Suc.prems(2) by simp
    have "chunk_loop w topic sty totalToGen iterations i s =
          chunk_loop w topic sty totalToGen iterations m
            (foldl (chunk_done w sty totalToGen iterations) s [i..<m])"
      using Suc.prems im by (intro Suc.IH) simp_all
    also have "\<dots> = chunk_loop w topic sty totalToGen iterations (Suc m)
            (chunk_done w sty totalToGen iterations (foldl (chunk_done w sty totalToGen iterations) s [i..<m]) m)"
      using Suc.prems im by (intro chunk_loop_step) simp_all
    finally show ?thesis using im by simp
  qed
qed

lemma trace_chunk_done:
  "trace (chunk_done w sty totalToGen iterations s i) =
   trace s @ [TextRequest (currentBatchSize totalToGen i), Progress (progress_value i iterations)]"
  by (simp add: chunk_done_def setProgress_def emit_def store_posts_def)

lemma posts_chunk_done:
  "posts (db (chunk_done w sty totalToGen iterations s i)) =
   table_bulkAdd (chunk_posts w sty i) (posts (db s))"
  by (simp add: chunk_done_def setProgress_def emit_def store_posts_def)

lemma reminders_chunk_done:
  "reminders (db (chunk_done w sty totalToGen iterations s i)) = reminders (db s)"
  by (simp add: chunk_done_def setProgress_def emit_def store_posts_def)

lemma trace_chunks:
  "trace (foldl (chunk_done w sty totalToGen iterations) s ks) =
   trace s @ concat (map (\<lambda>k. [TextRequest (currentBatchSize totalToGen k),
                                 Progress (progress_value k iterations)]) ks)"
  by (induction ks arbitrary: s) (simp_all add: trace_chunk_done)

lemma posts_chunks:
  "posts (db (foldl (chunk_done w sty totalToGen iterations) s ks)) =
   foldl (\<lambda>t k. table_bulkAdd (chunk_posts w sty k) t) (posts (db s)) ks"
  by (induction ks arbitrary: s) (simp_all add: posts_chunk_done)

lemma reminders_chunks:
  "reminders (db (foldl (chunk_done w sty totalToGen iterations) s ks)) = reminders (db s)"
  by (induction ks arbitrary: s) (simp_all add: reminders_chunk_done)

lemma text_requests_simps:
  "text_requests [] = []"
  "text_requests (TextRequest c # tr) = c # text_requests tr"
  "text_requests (Progress p # tr) = text_requests tr"
  "text_requests (Alert m # tr) = text_requests tr"
  "text_requests (ConsoleError m # tr) = text_requests tr"
  "text_requests (ShowNotification t b # tr) = text_requests tr"
  by (simp_all add: text_requests_def)

lemma progress_reports_simps:
  "progress_reports [] = []"
  "progress_reports (TextRequest c # tr) = progress_reports tr"
  "progress_reports (Progress p # tr) = p # progress_reports tr"
  "progress_reports (Alert m # tr) = progress_reports tr"
  "progress_reports (ConsoleError m # tr) = progress_reports tr"
  "progress_reports (ShowNotification t b # tr) = progress_reports tr"
  by (simp_all add: progress_reports_def)

lemma alerts_simps:
  "alerts [] = []"
  "alerts (TextRequest c # tr) = alerts tr"
  "alerts (Progress p # tr) = alerts tr"
  "alerts (Alert m # tr) = m # alerts tr"
  "alerts (ConsoleError m # tr) = alerts tr"
  "alerts (ShowNotification t b # tr) = alerts tr"
  by (simp_all add: alerts_def)

lemma text_requests_append: "text_requests (a @ b) = text_requests a @ text_requests b"
  by (simp add: text_requests_def)

lemma progress_reports_append: "progress_reports (a @ b) = progress_reports a @ progress_reports b"
  by (simp add: progress_reports_def)

lemma alerts_append: "alerts (a @ b) = alerts a @ alerts b"
  by (simp add: alerts_def)

lemma text_requests_chunks:
  "text_requests (concat (map (\<lambda>k. [TextRequest (f k), Progress (g k)]) ks)) = map f ks"
  by (induction ks) (simp_all add: text_requests_simps)

lemma progress_reports_chunks:
  "progress_reports (concat (map (\<lambda>k. [TextRequest (f k), Progress (g k)]) ks)) = map g ks"
  by (induction ks) (simp_all add: progress_reports_simps)

lemma alerts_chunks:
  "alerts (concat (map (\<lambda>k. [TextRequest (f k), Progress (g k)]) ks)) = []"
  by (induction ks) (simp_all add: alerts_simps)

lemma handleBulkGenerate_success:
  assumes "genTopic s \<noteq> []"
    and "\<forall>k. int k < iterations_of (genCount s) \<longrightarrow> chunk_completes w k"
  shows "handleBulkGenerate w s =
         setProgress 0
           ((foldl (chunk_done w (genStyle s) (genCount s) (iterations_of (genCount s)))
               (setProgress 0 (s\<lparr>isGenerating := True\<rparr>))
               [0..<nat (iterations_of (genCount s))])
            \<lparr>showGenModal := False, genTopic := [], isGenerating := False\<rparr>)"
proof -
  define n where "n = nat (iterations_of (genCount s))"
  define s0 where "s0 = setProgress 0 (s\<lparr>isGenerating := True\<rparr>)"
  have fin: "\<not> int n < iterations_of (genCount s)" by (simp add: n_def)
  have "chunk_loop w (genTopic s) (genStyle s) (genCount s) (iterations_of (genCount s)) 0 s0 =
        (foldl (chunk_done w (genStyle s) (genCount s) (iterations_of (genCount s))) s0 [0..<n], Normal)"
  proof (cases "0 \<le> iterations_of (genCount s)")
    case True
    then have "int n \<le> iterations_of (genCount s)" by (simp add: n_def)
    then have "chunk_loop w (genTopic s) (genStyle s) (genCount s) (iterations_of (genCount s)) 0 s0 =
          chunk_loop w (genTopic s) (genStyle s) (genCount s) (iterations_of (genCount s)) n
            (foldl (chunk_done w (genStyle s) (genCount s) (iterations_of (genCount s))) s0 [0..<n])"
      using assms(2) by (intro chunk_loop_run) (auto simp: n_def)
    then show ?thesis using fin by (simp add: chunk_loop_end)
  next
    case False
    then have "n = 0" by (simp add: n_def)
    then show ?thesis using fin by (simp add: chunk_loop_end)
  qed
  then show ?thesis
    using assms(1) by (simp add: handleBulkGenerate_def s0_def n_def)
qed

lemma handleBulkGenerate_failure:
  assumes "genTopic s \<noteq> []"
    and "\<forall>k. k < N \<longrightarrow> chunk_completes w k"
    and "\<not> chunk_completes w N"
    and "int N < iterations_of (genCount s)"
  shows "handleBulkGenerate w s =
         setProgress 0
           ((emit (Alert ''Generation encountered an error. Some posts may have been saved.'')
              (emit (ConsoleError ''Generation failed'')
                (emit (TextRequest (currentBatchSize (genCount s) N))
                  (foldl (chunk_done w (genStyle s) (genCount s) (iterations_of (genCount s)))
                     (setProgress 0 (s\<lparr>isGenerating := True\<rparr>)) [0..<N]))))
            \<lparr>isGenerating := False\<rparr>)"
proof -
  have run: "chunk_loop w (genTopic s) (genStyle s) (genCount s) (iterations_of (genCount s)) 0
               (setProgress 0 (s\<lparr>isGenerating := True\<rparr>)) =
             chunk_loop w (genTopic s) (genStyle s) (genCount s) (iterations_of (genCount s)) N
               (foldl (chunk_done w (genStyle s) (genCount s) (iterations_of (genCount s)))
                  (setProgress 0 (s\<lparr>isGenerating := True\<rparr>)) [0..<N])"
    using assms(2,4) by (intro chunk_loop_run) auto
  show ?thesis
    using assms(1) by (simp add: handleBulkGenerate_def run chunk_loop_fail [OF assms(3,4)])
qed

lemma success_text_requests:
  assumes "genTopic s \<noteq> []"
    and "\<forall>k. int k < iterations_of (genCount s) \<longrightarrow> chunk_completes w k"
  shows "text_requests (trace (handleBulkGenerate w s)) =
         text_requests (trace s) @
           map (currentBatchSize (genCount s)) [0..<nat (iterations_of (genCount s))]"
  unfolding handleBulkGenerate_success [OF assms]
  by (simp add: setProgress_def emit_def trace_chunks text_requests_append text_requests_chunks
      text_requests_simps)

lemma success_alerts:
  assumes "genTopic s \<noteq> []"
    and "\<forall>k. int k < iterations_of (genCount s) \<longrightarrow> chunk_completes w k"
  shows "alerts (trace (handleBulkGenerate w s)) = alerts (trace s)"
  unfolding handleBulkGenerate_success [OF assms]
  by (simp add: setProgress_def emit_def trace_chunks alerts_append alerts_chunks alerts_simps)

section \<open>Chunk sizes\<close>

lemma batch_sizes:
  assumes "0 \<le> C"
  shows "map (currentBatchSize C) [0..<nat ((C + 4) div 5)] =
         replicate (nat (C div 5)) 5 @ (if C mod 5 = 0 then [] else [C mod 5])"
proof (rule nth_equalityI)
  show len: "length (map (currentBatchSize C) [0..<nat ((C + 4) div 5)]) =
        length (replicate (nat (C div 5)) 5 @ (if C mod 5 = 0 then [] else [C mod 5]))"
  proof -
    have "(C + 4) div 5 = C div 5 + (if C mod 5 = 0 then 0 else 1)" by presburger
    moreover have "0 \<le> C div 5" using assms by simp
    ultimately have "nat ((C + 4) div 5) = nat (C div 5) + (if C mod 5 = 0 then 0 else 1)"
      by (simp add: nat_add_distrib)
    then show ?thesis by simp
  qed
next
  fix i
  assume "i < length (map (currentBatchSize C) [0..<nat ((C + 4) div 5)])"
  then have il: "i < nat ((C + 4) div 5)" by simp
  then have i: "int i < (C + 4) div 5" by simp
  have lhs: "map (currentBatchSize C) [0..<nat ((C + 4) div 5)] ! i = currentBatchSize C i"
    using il by simp
  show "map (currentBatchSize C) [0..<nat ((C + 4) div 5)] ! i =
        (replicate (nat (C div 5)) 5 @ (if C mod 5 = 0 then [] else [C mod 5])) ! i"
    unfolding lhs
  proof (cases "int i < C div 5")
    case True
    then have "int i * 5 + 5 \<le> C" by presburger
    then have "currentBatchSize C i = 5" by (simp add: currentBatchSize_def chunkSize_def)
    moreover have "i < nat (C div 5)" using True by simp
    ultimately show "currentBatchSize C i =
        (replicate (nat (C div 5)) 5 @ (if C mod 5 = 0 then [] else [C mod 5])) ! i"
      by (simp add: nth_append)
  next
    case False
    then have eq: "int i = C div 5" and r: "C mod 5 \<noteq> 0" using i by presburger+
    have "C - int i * 5 = C mod 5" unfolding eq by presburger
    moreover have "C mod 5 < 5" by simp
    ultimately have cb: "currentBatchSize C i = C mod 5"
      by (simp add: currentBatchSize_def chunkSize_def)
    have "i = nat (C div 5)" using eq by simp
    then have "(replicate (nat (C div 5)) 5 @ (if C mod 5 = 0 then [] else [C mod 5])) ! i = C mod 5"
      using r by (simp add: nth_append)
    then show "currentBatchSize C i =
        (replicate (nat (C div 5)) 5 @ (if C mod 5 = 0 then [] else [C mod 5])) ! i"
      using cb by simp
  qed
qed

text \<open>
  C7. For every requested count \<open>C\<close> from 1 to 1000 (with a topic given and every
  text request answered with a list), the run makes exactly \<open>ceil(C/5)\<close> text requests:
  \<open>C div 5\<close> requests for 5 drafts, followed by one for \<open>C mod 5\<close> drafts when \<open>C\<close> is
  not a multiple of 5. For \<open>C = 12\<close> the sizes are \<open>[5, 5, 2]\<close>.
\<close>

theorem chunk_plan:
  assumes "1 \<le> genCount s" and "genCount s \<le> 1000" and "genTopic s \<noteq> []"
    and "\<forall>k. int k < iterations_of (genCount s) \<longrightarrow> chunk_completes w k"
  shows "iterations_of (genCount s) = \<lceil>real_of_int (genCount s) / 5\<rceil> \<and>
         text_requests (trace (handleBulkGenerate w s)) =
           text_requests (trace s) @ replicate (nat (genCount s div 5)) 5 @
             (if genCount s mod 5 = 0 then [] else [genCount s mod 5]) \<and>
         int (length (replicate (nat (genCount s div 5)) (5::int) @
             (if genCount s mod 5 = 0 then [] else [genCount s mod 5]))) =
           \<lceil>real_of_int (genCount s) / 5\<rceil>"
proof -
  have it: "iterations_of (genCount s) = (genCount s + 4) div 5"
    using assms(1,2) by (rule iterations_of_exact)
  have "0 \<le> genCount s" using assms(1) by simp
  note sizes = batch_sizes [OF this]
  have "text_requests (trace (handleBulkGenerate w s)) =
        text_requests (trace s) @ map (currentBatchSize (genCount s)) [0..<nat ((genCount s + 4) div 5)]"
    using success_text_requests [OF assms(3,4)] unfolding it .
  moreover have "int (length (map (currentBatchSize (genCount s)) [0..<nat ((genCount s + 4) div 5)])) =
        (genCount s + 4) div 5"
    using assms(1) by simp
  ultimately show ?thesis
    unfolding sizes it ceiling_fifth by simp
qed

lemma iterations_12: "iterations_of 12 = 3"
  using iterations_of_exact [of 12] by simp

theorem chunk_plan_witness:
  "iterations_of 12 = 3 \<and>
   text_requests (trace (handleBulkGenerate world_ok (app0\<lparr>genCount := 12\<rparr>))) = [5, 5, 2]"
  using chunk_plan [of "app0\<lparr>genCount := 12\<rparr>" world_ok]
  by (simp add: app0_def world_ok_def chunk_completes_def text_requests_simps eval_nat_numeral)

section \<open>Progress reports\<close>

lemma progress_reports_success:
  assumes "genTopic s \<noteq> []"
    and "\<forall>k. int k < iterations_of (genCount s) \<longrightarrow> chunk_completes w k"
  shows "progress_reports (trace (handleBulkGenerate w s)) =
         progress_reports (trace s) @ [0] @
           map (\<lambda>k. progress_value k (iterations_of (genCount s)))
             [0..<nat (iterations_of (genCount s))] @ [0]"
  unfolding handleBulkGenerate_success [OF assms]
  by (simp add: setProgress_def emit_def trace_chunks progress_reports_append progress_reports_chunks
      progress_reports_simps)

lemma progress_values_sorted:
  assumes "0 < n" "n \<le> 200"
  shows "sorted (map (\<lambda>k. progress_value k n) [0..<nat n])"
  unfolding sorted_iff_nth_mono
proof (intro allI impI)
  fix i j
  assume "i \<le> j" "j < length (map (\<lambda>k. progress_value k n) [0..<nat n])"
  then have "int j < n" "i < nat n" "j < nat n" by simp_all
  then show "map (\<lambda>k. progress_value k n) [0..<nat n] ! i \<le> map (\<lambda>k. progress_value k n) [0..<nat n] ! j"
    using progress_value_mono [OF assms \<open>i \<le> j\<close>] by simp
qed

lemma progress_values_last:
  assumes "0 < n"
  shows "last (map (\<lambda>k. progress_value k n) [0..<nat n]) = 100"
proof -
  have "[0..<nat n] \<noteq> []" using assms by simp
  then have "last (map (\<lambda>k. progress_value k n) [0..<nat n]) = progress_value (last [0..<nat n]) n"
    by (rule last_map)
  also have "last [0..<nat n] = nat n - 1" using assms by simp
  finally show ?thesis using progress_value_last [OF assms] by simp
qed

text \<open>
  C8, as amended. On a run in which every iteration succeeds (count from 1 to 1000), the
  progress reported after chunk \<open>k + 1\<close> of \<open>n\<close> is \<^verbatim>\<open>Math.round\<close> of the
  double-precision product \<open>((k + 1) / n) * 100\<close>; these values are non-decreasing and
  the last of them is exactly 100. Progress is also set to 0 before the first chunk and
  reset to 0 when the run ends.
\<close>

theorem progress_sequence:
  assumes "1 \<le> genCount s" and "genCount s \<le> 1000" and "genTopic s \<noteq> []"
    and "\<forall>k. int k < iterations_of (genCount s) \<longrightarrow> chunk_completes w k"
  shows "progress_reports (trace (handleBulkGenerate w s)) =
           progress_reports (trace s) @ [0] @
             map (\<lambda>k. Math_round (fl (fl (of_int (int k + 1) / of_int (iterations_of (genCount s))) * 100)))
               [0..<nat (iterations_of (genCount s))] @ [0] \<and>
         sorted (map (\<lambda>k. Math_round (fl (fl (of_int (int k + 1) / of_int (iterations_of (genCount s))) * 100)))
               [0..<nat (iterations_of (genCount s))]) \<and>
         last (map (\<lambda>k. Math_round (fl (fl (of_int (int k + 1) / of_int (iterations_of (genCount s))) * 100)))
               [0..<nat (iterations_of (genCount s))]) = 100"
proof -
  have it: "iterations_of (genCount s) = (genCount s + 4) div 5"
    using assms(1,2) by (rule iterations_of_exact)
  have n: "0 < iterations_of (genCount s)" "iterations_of (genCount s) \<le> 200"
    unfolding it using assms(1,2) by presburger+
  show ?thesis
    using progress_reports_success [OF assms(3,4)] progress_values_sorted [OF n]
      progress_values_last [OF n(1)]
    unfolding progress_value_def by simp
qed

lemma iterations_200: "iterations_of 200 = 40"
  using iterations_of_exact [of 200] by simp

lemma progress_23_of_40: "progress_value 22 40 = 57"
  by (simp add: progress_value_def Math_round_def fl_def fl_pos_def round_half_even_def
      scale_down.simps scale_up.simps)

text \<open>For a count of 12 the reports are 0, then 33, 67, 100, then the reset to 0.\<close>

theorem progress_sequence_witness:
  "progress_reports (trace (handleBulkGenerate world_ok (app0\<lparr>genCount := 12\<rparr>))) = [0, 33, 67, 100, 0]"
proof -
  have vals: "progress_value 0 3 = 33" "progress_value 1 3 = 67" "progress_value 2 3 = 100"
    by (simp_all add: progress_value_def Math_round_def fl_def fl_pos_def round_half_even_def
        scale_down.simps scale_up.simps)
  have up: "[0..<3] = [0, 1, 2]" by (simp add: eval_nat_numeral)
  have hyp: "\<forall>k. int k < iterations_of (genCount (app0\<lparr>genCount := 12\<rparr>)) \<longrightarrow> chunk_completes world_ok k"
    by (simp add: world_ok_def chunk_completes_def)
  show ?thesis
    using progress_sequence [of "app0\<lparr>genCount := 12\<rparr>" world_ok, OF _ _ _ hyp] vals
    unfolding progress_value_def [symmetric]
    by (simp add: iterations_12 app0_def up progress_reports_simps)
qed


text \<open>
  C8 as stated fails: for a count of 200 there are 40 iterations, and the value reported
  after the 23rd chunk is 57, because the double nearest to 23/40 times 100 rounds to
  57.49999999999999, whereas \<open>round (100 * 23 / 40) = 58\<close>.
\<close>

theorem progress_formula_counterexample:
  "progress_reports (trace (handleBulkGenerate world_ok (app0\<lparr>genCount := 200\<rparr>))) ! 23 = 57 \<and>
   round (100 * 23 / 40 :: real) = 58 \<and>
   progress_reports (trace (handleBulkGenerate world_ok (app0\<lparr>genCount := 200\<rparr>))) ! 23
     \<noteq> round (100 * 23 / 40 :: real)"
proof -
  have hyp: "\<forall>k. int k < iterations_of (genCount (app0\<lparr>genCount := 200\<rparr>)) \<longrightarrow> chunk_completes world_ok k"
    by (simp add: world_ok_def chunk_completes_def)
  have top: "genTopic (app0\<lparr>genCount := 200\<rparr>) \<noteq> []" by (simp add: app0_def)
  have "progress_reports (trace (handleBulkGenerate world_ok (app0\<lparr>genCount := 200\<rparr>))) =
        [0] @ map (\<lambda>k. progress_value k 40) [0..<40] @ [0]"
    using progress_reports_success [OF top hyp]
    by (simp add: iterations_200 app0_def progress_reports_simps)
  then have "progress_reports (trace (handleBulkGenerate world_ok (app0\<lparr>genCount := 200\<rparr>))) ! 23 =
        (map (\<lambda>k. progress_value k 40) [0..<40] @ [0]) ! 22"
    by simp
  also have "\<dots> = map (\<lambda>k. progress_value k 40) [0..<40] ! 22"
    by (simp add: nth_append)
  also have "\<dots> = progress_value 22 40"
    by simp
  finally have a: "progress_reports (trace (handleBulkGenerate world_ok (app0\<lparr>genCount := 200\<rparr>))) ! 23 = 57"
    by (simp add: progress_23_of_40)
  have b: "round (100 * 23 / 40 :: real) = 58"
    by (simp add: round_def)
  show ?thesis unfolding a b by simp
qed

section \<open>A failing text request\<close>

lemma rows_table_bulkAdd:
  "map snd (rows (table_bulkAdd ps t)) = map snd (rows t) @ ps"
  by (induction ps arbitrary: t) (simp_all add: table_add_def)

lemma rows_chunks:
  "map snd (rows (foldl (\<lambda>t k. table_bulkAdd (chunk_posts w sty k) t) t ks)) =
   map snd (rows t) @ concat (map (chunk_posts w sty) ks)"
  by (induction ks arbitrary: t) (simp_all add: rows_table_bulkAdd)

lemma rejected_not_completes: "text_service w N = Rejected \<Longrightarrow> \<not> chunk_completes w N"
  by (simp add: chunk_completes_def)

lemma no_posts_not_completes: "text_service w N = Resolved NoPostsMember \<Longrightarrow> \<not> chunk_completes w N"
  by (simp add: chunk_completes_def)

lemma failure_posts:
  assumes "genTopic s \<noteq> []" "\<forall>k. k < N \<longrightarrow> chunk_completes w k" "\<not> chunk_completes w N"
    "int N < iterations_of (genCount s)"
  shows "map snd (rows (posts (db (handleBulkGenerate w s)))) =
         map snd (rows (posts (db s))) @ concat (map (chunk_posts w (genStyle s)) [0..<N])"
  unfolding handleBulkGenerate_failure [OF assms]
  by (simp add: setProgress_def emit_def posts_chunks rows_chunks)

lemma failure_text_requests:
  assumes "genTopic s \<noteq> []" "\<forall>k. k < N \<longrightarrow> chunk_completes w k" "\<not> chunk_completes w N"
    "int N < iterations_of (genCount s)"
  shows "text_requests (trace (handleBulkGenerate w s)) =
         text_requests (trace s) @ map (currentBatchSize (genCount s)) [0..<Suc N]"
  unfolding handleBulkGenerate_failure [OF assms]
  by (simp add: setProgress_def emit_def trace_chunks text_requests_append text_requests_chunks
      text_requests_simps)

lemma failure_alerts:
  assumes "genTopic s \<noteq> []" "\<forall>k. k < N \<longrightarrow> chunk_completes w k" "\<not> chunk_completes w N"
    "int N < iterations_of (genCount s)"
  shows "alerts (trace (handleBulkGenerate w s)) = alerts (trace s) @ [generation_failed]"
  unfolding handleBulkGenerate_failure [OF assms]
  by (simp add: setProgress_def emit_def trace_chunks alerts_append alerts_chunks
      alerts_simps generation_failed_def)

text \<open>
  C3. If the text request of chunk \<open>N + 1\<close> is rejected after \<open>N\<close> chunks completed,
  the posts table holds what it held before followed by exactly the posts of those \<open>N\<close>
  chunks (nothing is rolled back), the requests made are those of chunks \<open>1\<close> to
  \<open>N + 1\<close> and no further one, and exactly one failure alert is raised.
\<close>

theorem text_failure_keeps_prior_chunks:
  assumes "genTopic s \<noteq> []"
    and "\<forall>k. k < N \<longrightarrow> chunk_completes w k"
    and "text_service w N = Rejected"
    and "int N < iterations_of (genCount s)"
  shows "map snd (rows (posts (db (handleBulkGenerate w s)))) =
           map snd (rows (posts (db s))) @ concat (map (chunk_posts w (genStyle s)) [0..<N]) \<and>
         text_requests (trace (handleBulkGenerate w s)) =
           text_requests (trace s) @ map (currentBatchSize (genCount s)) [0..<Suc N] \<and>
         alerts (trace (handleBulkGenerate w s)) = alerts (trace s) @ [generation_failed]"
  using failure_posts [OF assms(1,2) rejected_not_completes [OF assms(3)] assms(4)]
    failure_text_requests [OF assms(1,2) rejected_not_completes [OF assms(3)] assms(4)]
    failure_alerts [OF assms(1,2) rejected_not_completes [OF assms(3)] assms(4)]
  by simp

theorem text_failure_keeps_prior_chunks_witness:
  "map title (map snd (rows (posts (db (handleBulkGenerate world_outage (app0\<lparr>genCount := 12\<rparr>)))))) =
     [''Alpha'', ''Beta'', ''Alpha'', ''Beta''] \<and>
   text_requests (trace (handleBulkGenerate world_outage (app0\<lparr>genCount := 12\<rparr>))) = [5, 5, 2] \<and>
   alerts (trace (handleBulkGenerate world_outage (app0\<lparr>genCount := 12\<rparr>))) = [generation_failed]"
proof -
  have up: "[0..<2] = [0, 1]" "[0..<3] = [0, 1, 2]" by (simp_all add: eval_nat_numeral)
  have hyp: "\<forall>k. k < 2 \<longrightarrow> chunk_completes world_outage k" "text_service world_outage 2 = Rejected"
    by (simp_all add: world_outage_def chunk_completes_def)
  show ?thesis
    using text_failure_keeps_prior_chunks [of "app0\<lparr>genCount := 12\<rparr>" 2 world_outage, OF _ hyp]
    by (simp add: iterations_12 app0_def up world_outage_def world_ok_def
        chunk_posts_def text_requests_simps alerts_simps empty_table_def draft_post_def
        draft_a_def draft_b_def currentBatchSize_def chunkSize_def generateThumbnail_def
        thumbnail_prompt_for_def thumb_ok_def)
qed

text \<open>
  C4, evaluated at the failing input. A response that is valid JSON without a
  \<^verbatim>\<open>posts\<close> member (such as the \<^verbatim>\<open>"{}"\<close> substituted for an empty text) is not
  treated as an empty draft list: \<^verbatim>\<open>generatePostsBulk\<close> returns \<^verbatim>\<open>undefined\<close>,
  reading its length throws, and the run stops after the first request with the
  failure alert. Only text that is not JSON at all is treated as an empty list, and
  then all three requests are made and no alert is raised.
\<close>

theorem missing_posts_member_aborts:
  "text_requests (trace (handleBulkGenerate world_no_posts (app0\<lparr>genCount := 12\<rparr>))) = [5] \<and>
   alerts (trace (handleBulkGenerate world_no_posts (app0\<lparr>genCount := 12\<rparr>))) = [generation_failed] \<and>
   text_requests (trace (handleBulkGenerate world_not_json (app0\<lparr>genCount := 12\<rparr>))) = [5, 5, 2] \<and>
   alerts (trace (handleBulkGenerate world_not_json (app0\<lparr>genCount := 12\<rparr>))) = []"
proof -
  have up: "[0..<3] = [0, 1, 2]" by (simp add: eval_nat_numeral)
  have a: "genTopic (app0\<lparr>genCount := 12\<rparr>) \<noteq> []" by (simp add: app0_def)
  have b: "\<not> chunk_completes world_no_posts 0"
    by (simp add: chunk_completes_def world_no_posts_def)
  have c: "int 0 < iterations_of (genCount (app0\<lparr>genCount := 12\<rparr>))"
    by (simp add: iterations_12)
  have d: "\<forall>k. int k < iterations_of (genCount (app0\<lparr>genCount := 12\<rparr>)) \<longrightarrow> chunk_completes world_not_json k"
    by (simp add: chunk_completes_def world_not_json_def)
  have e: "\<forall>k. k < (0::nat) \<longrightarrow> chunk_completes world_no_posts k" by simp
  have "text_requests (trace (handleBulkGenerate world_no_posts (app0\<lparr>genCount := 12\<rparr>))) = [5]"
    using failure_text_requests [OF a e b c]
    by (simp add: app0_def text_requests_simps currentBatchSize_def chunkSize_def)
  moreover have "alerts (trace (handleBulkGenerate world_no_posts (app0\<lparr>genCount := 12\<rparr>))) = [generation_failed]"
    using failure_alerts [OF a e b c] by (simp add: app0_def alerts_simps)
  moreover have "text_requests (trace (handleBulkGenerate world_not_json (app0\<lparr>genCount := 12\<rparr>))) = [5, 5, 2]"
    using success_text_requests [OF a d]
    by (simp add: iterations_12 up text_requests_simps app0_def currentBatchSize_def chunkSize_def)
  moreover have "alerts (trace (handleBulkGenerate world_not_json (app0\<lparr>genCount := 12\<rparr>))) = []"
    using success_alerts [OF a d] by (simp add: alerts_simps app0_def)
  ultimately show ?thesis by simp
qed

section \<open>What a run stores\<close>

lemma chunks_completed_le: "chunks_completed w n \<le> n"
  by (induction n) simp_all

lemma chunks_completed_all: "k < chunks_completed w n \<Longrightarrow> chunk_completes w k"
proof (induction n)
  case 0
  then show ?case by simp
next
  case (Suc n)
  show ?case
  proof (cases "chunks_completed w n = n \<and> chunk_completes w n")
    case True
    show ?thesis
    proof (cases "k = n")
      case True
      then show ?thesis using \<open>chunks_completed w n = n \<and> chunk_completes w n\<close> by simp
    next
      case False
      then have "k < chunks_completed w n" using Suc.prems True by simp
      then show ?thesis by (rule Suc.IH)
    qed
  next
    case False
    then have "chunks_completed w (Suc n) = chunks_completed w n" by simp
    then have "k < chunks_completed w n" using Suc.prems by simp
    then show ?thesis by (rule Suc.IH)
  qed
qed

lemma chunks_completed_stop:
  "chunks_completed w n < n \<Longrightarrow> \<not> chunk_completes w (chunks_completed w n)"
proof (induction n)
  case 0
  then show ?case by simp
next
  case (Suc n)
  show ?case
  proof (cases "chunks_completed w n = n \<and> chunk_completes w n")
    case True
    then show ?thesis using Suc.prems by simp
  next
    case False
    then have eq: "chunks_completed w (Suc n) = chunks_completed w n" by simp
    show ?thesis
    proof (cases "chunks_completed w n = n")
      case True
      then show ?thesis using False eq by simp
    next
      case ne: False
      then have "chunks_completed w n < n"
        using chunks_completed_le [of w n] by simp
      then show ?thesis unfolding eq by (rule Suc.IH)
    qed
  qed
qed

lemma success_posts:
  assumes "genTopic s \<noteq> []"
    and "\<forall>k. int k < iterations_of (genCount s) \<longrightarrow> chunk_completes w k"
  shows "map snd (rows (posts (db (handleBulkGenerate w s)))) =
         map snd (rows (posts (db s))) @
           concat (map (chunk_posts w (genStyle s)) [0..<nat (iterations_of (genCount s))])"
  unfolding handleBulkGenerate_success [OF assms]
  by (simp add: setProgress_def emit_def posts_chunks rows_chunks)

text \<open>
  Whatever the services answer, a run with a topic appends to the posts table the
  posts of the chunks it gets through, in order, and nothing else.
\<close>

lemma handleBulkGenerate_rows:
  assumes "genTopic s \<noteq> []"
  shows "map snd (rows (posts (db (handleBulkGenerate w s)))) =
         map snd (rows (posts (db s))) @
           concat (map (chunk_posts w (genStyle s))
             [0..<chunks_completed w (nat (iterations_of (genCount s)))])"
proof -
  define n where "n = nat (iterations_of (genCount s))"
  define m where "m = chunks_completed w n"
  have all: "\<forall>k. k < m \<longrightarrow> chunk_completes w k"
    unfolding m_def using chunks_completed_all by blast
  show ?thesis
  proof (cases "m = n")
    case True
    have "\<forall>k. int k < iterations_of (genCount s) \<longrightarrow> chunk_completes w k"
      using all True by (simp add: n_def)
    from success_posts [OF assms this] show ?thesis
      using True by (simp add: n_def m_def)
  next
    case False
    then have lt: "m < n" using chunks_completed_le [of w n] by (simp add: m_def)
    then have stop: "\<not> chunk_completes w m"
      unfolding m_def by (rule chunks_completed_stop)
    have "int m < iterations_of (genCount s)" using lt by (simp add: n_def)
    from failure_posts [OF assms all stop this] show ?thesis
      by (simp add: n_def m_def)
  qed
qed

lemma handleBulkGenerate_no_topic: "genTopic s = [] \<Longrightarrow> handleBulkGenerate w s = s"
  by (simp add: handleBulkGenerate_def)

section \<open>Thumbnails that fail\<close>

lemma length_draft_loop: "length (draft_loop w sty i j ds) = length ds"
  by (induction ds arbitrary: j) simp_all

lemma nth_draft_loop:
  "k < length ds \<Longrightarrow> draft_loop w sty i j ds ! k = draft_post w sty i (j + k) (ds ! k)"
proof (induction ds arbitrary: j k)
  case Nil
  then show ?case by simp
next
  case (Cons d ds)
  show ?case
  proof (cases k)
    case 0
    then show ?thesis by simp
  next
    case (Suc k')
    then have "k' < length ds" using Cons.prems by simp
    then have "draft_loop w sty i (Suc j) ds ! k' = draft_post w sty i (Suc j + k') (ds ! k')"
      by (rule Cons.IH)
    then show ?thesis using Suc by simp
  qed
qed

lemma draft_post_fallback:
  assumes "generateThumbnail (draft_content p) None (thumb_service w i j) = Rejected"
  shows "draft_post w sty i j p =
         \<lparr>title = draft_title p, content = draft_content p,
          thumbnail_url = picsum (Math_random w i j), thumbnail_prompt = Some [],
          style = sty, virality_score = draft_virality_score p,
          created_at = Date_now w i j - (int i * chunkSize + int j)\<rparr>"
  using assms by (simp add: draft_post_def)

text \<open>
  A thumbnail request fails when the call rejects (one of its two requests throws).
  An image answer without inline data is not a failure: \<^verbatim>\<open>generateThumbnail\<close> then
  returns a reference of the same form built from its own \<^verbatim>\<open>Math.random()\<close>, and the
  prompt is kept.
\<close>

lemma thumbnail_without_inline_data:
  assumes "promptResponse tw = Resolved (c # cs)" and "imageResponse tw = Resolved parts"
    and "first_inline parts = None"
  shows "generateThumbnail postContent None tw = Resolved (picsum (inner_random tw), c # cs)"
  using assms by (simp add: generateThumbnail_def thumbnail_prompt_for_def)

text \<open>
  C5, as amended. When the thumbnail request of draft \<open>j\<close> of a chunk fails, the run
  goes on: the posts table receives every draft of every chunk the run gets through,
  and among them the post of draft \<open>j\<close>, which carries the draft's title, content and
  score, an empty thumbnail prompt and the fallback reference
  \<^verbatim>\<open>https://picsum.photos/seed/<r>/800/450\<close>, where \<open>r\<close> is the value that
  \<^verbatim>\<open>Math.random()\<close> returned for this draft at line 282.
\<close>

theorem thumbnail_failure_fallback:
  assumes "genTopic s \<noteq> []"
    and "i < chunks_completed w (nat (iterations_of (genCount s)))"
    and "text_service w i = Resolved (PostsMember ds)"
    and "j < length ds"
    and "generateThumbnail (draft_content (ds ! j)) None (thumb_service w i j) = Rejected"
  shows "map snd (rows (posts (db (handleBulkGenerate w s)))) =
           map snd (rows (posts (db s))) @
             concat (map (chunk_posts w (genStyle s))
               [0..<chunks_completed w (nat (iterations_of (genCount s)))]) \<and>
         chunk_posts w (genStyle s) i = draft_loop w (genStyle s) i 0 ds \<and>
         length (draft_loop w (genStyle s) i 0 ds) = length ds \<and>
         draft_loop w (genStyle s) i 0 ds ! j =
           \<lparr>title = draft_title (ds ! j), content = draft_content (ds ! j),
            thumbnail_url = ''https://picsum.photos/seed/'' @ Math_random w i j @ ''/800/450'',
            thumbnail_prompt = Some [], style = genStyle s,
            virality_score = draft_virality_score (ds ! j),
            created_at = Date_now w i j - (int i * 5 + int j)\<rparr> \<and>
         \<lparr>title = draft_title (ds ! j), content = draft_content (ds ! j),
          thumbnail_url = ''https://picsum.photos/seed/'' @ Math_random w i j @ ''/800/450'',
          thumbnail_prompt = Some [], style = genStyle s,
          virality_score = draft_virality_score (ds ! j),
          created_at = Date_now w i j - (int i * 5 + int j)\<rparr>
           \<in> set (map snd (rows (posts (db (handleBulkGenerate w s)))))"
proof -
  define m where "m = chunks_completed w (nat (iterations_of (genCount s)))"
  define post where "post = draft_post w (genStyle s) i j (ds ! j)"
  have rows: "map snd (rows (posts (db (handleBulkGenerate w s)))) =
        map snd (rows (posts (db s))) @ concat (map (chunk_posts w (genStyle s)) [0..<m])"
    unfolding m_def by (rule handleBulkGenerate_rows [OF assms(1)])
  have cp: "chunk_posts w (genStyle s) i = draft_loop w (genStyle s) i 0 ds"
    using assms(3) by (simp add: chunk_posts_def)
  have nth: "draft_loop w (genStyle s) i 0 ds ! j = post"
    unfolding post_def using nth_draft_loop [OF assms(4), of w "genStyle s" i 0] by simp
  have "post \<in> set (draft_loop w (genStyle s) i 0 ds)"
    using nth assms(4) length_draft_loop [of w "genStyle s" i 0 ds] by (metis nth_mem)
  moreover have "i \<in> set [0..<m]" using assms(2) by (simp add: m_def)
  ultimately have "post \<in> set (concat (map (chunk_posts w (genStyle s)) [0..<m]))"
    unfolding cp [symmetric] by (simp del: set_upt) blast
  then have mem: "post \<in> set (map snd (rows (posts (db (handleBulkGenerate w s)))))"
    unfolding rows by simp
  have post: "post =
        \<lparr>title = draft_title (ds ! j), content = draft_content (ds ! j),
         thumbnail_url = ''https://picsum.photos/seed/'' @ Math_random w i j @ ''/800/450'',
         thumbnail_prompt = Some [], style = genStyle s,
         virality_score = draft_virality_score (ds ! j),
         created_at = Date_now w i j - (int i * 5 + int j)\<rparr>"
    unfolding post_def using draft_post_fallback [OF assms(5), of "genStyle s"]
    by (simp add: picsum_def chunkSize_def)
  show ?thesis
    using rows cp nth mem length_draft_loop [of w "genStyle s" i 0 ds]
    unfolding post m_def by simp
qed

lemma iterations_5: "iterations_of 5 = 1"
  using iterations_of_exact [of 5] by simp

text \<open>
  With every image request failing, a run for five posts stores both drafts of its one
  chunk, each under the reference of its own random value.
\<close>

theorem thumbnail_failure_fallback_witness:
  "map thumbnail_url (map snd (rows (posts (db (handleBulkGenerate world_no_images app0))))) =
     [''https://picsum.photos/seed/0.1/800/450'', ''https://picsum.photos/seed/0.7/800/450''] \<and>
   map thumbnail_prompt (map snd (rows (posts (db (handleBulkGenerate world_no_images app0))))) =
     [Some [], Some []] \<and>
   \<lparr>title = ''Beta'', content = ''second'',
    thumbnail_url = ''https://picsum.photos/seed/0.7/800/450'',
    thumbnail_prompt = Some [], style = ''ceo'', virality_score = JsNumber 40,
    created_at = 4999\<rparr>
     \<in> set (map snd (rows (posts (db (handleBulkGenerate world_no_images app0)))))"
proof -
  have cc: "chunks_completed world_no_images (nat (iterations_of (genCount app0))) = 1"
    by (simp add: app0_def iterations_5 chunk_completes_def world_no_images_def world_ok_def)
  then have pos: "0 < chunks_completed world_no_images (nat (iterations_of (genCount app0)))"
    by simp
  have t: "text_service world_no_images 0 = Resolved (PostsMember [draft_a, draft_b])"
    by (simp add: world_no_images_def world_ok_def)
  have f: "generateThumbnail (draft_content ([draft_a, draft_b] ! j)) None (thumb_service world_no_images 0 j) = Rejected"
    for j
    by (simp add: world_no_images_def generateThumbnail_def thumbnail_prompt_for_def thumb_down_def)
  have top: "genTopic app0 \<noteq> []" by (simp add: app0_def)
  have sty: "genStyle app0 = ''ceo''" by (simp add: app0_def)
  have r0: "map snd (rows (posts (db app0))) = []" by (simp add: app0_def empty_table_def)
  have j1: "1 < length [draft_a, draft_b]" by simp
  have pa: "draft_post world_no_images ''ceo'' 0 0 draft_a =
        \<lparr>title = ''Alpha'', content = ''first'',
         thumbnail_url = ''https://picsum.photos/seed/0.1/800/450'',
         thumbnail_prompt = Some [], style = ''ceo'', virality_score = JsNumber 95,
         created_at = 3000\<rparr>"
    using draft_post_fallback [OF f [of 0], of "''ceo''"]
    by (simp add: draft_a_def world_no_images_def world_ok_def picsum_def chunkSize_def)
  have vals: "[draft_a, draft_b] ! 1 = draft_b" "draft_title draft_b = ''Beta''"
    "draft_content draft_b = ''second''" "draft_virality_score draft_b = JsNumber 40"
    "''https://picsum.photos/seed/'' @ Math_random world_no_images 0 1 @ ''/800/450'' =
       ''https://picsum.photos/seed/0.7/800/450''"
    "Date_now world_no_images 0 1 - (int 0 * 5 + int 1) = 4999"
    by (simp_all add: draft_b_def world_no_images_def world_ok_def)
  note inst = thumbnail_failure_fallback [OF top pos t j1 f [of 1], unfolded sty cc r0 vals]
  show ?thesis using inst pa by simp
qed

text \<open>
  C5 as stated fails: the fallback reference is built from a fresh \<^verbatim>\<open>Math.random()\<close>
  for every draft, so here two failed thumbnails get two references.
\<close>

theorem fallback_reference_counterexample:
  "generateThumbnail (draft_content draft_a) None (thumb_service world_no_images 0 0) = Rejected \<and>
   generateThumbnail (draft_content draft_b) None (thumb_service world_no_images 0 1) = Rejected \<and>
   thumbnail_url (draft_loop world_no_images ''ceo'' 0 0 [draft_a, draft_b] ! 0) \<noteq>
   thumbnail_url (draft_loop world_no_images ''ceo'' 0 0 [draft_a, draft_b] ! 1)"
  by (simp add: world_no_images_def world_ok_def generateThumbnail_def thumbnail_prompt_for_def
      thumb_down_def draft_post_def picsum_def)

section \<open>Creation timestamps\<close>

lemma iterations_2: "iterations_of 2 = 1"
  using iterations_of_exact [of 2] by simp

text \<open>
  C6, evaluated at the failing input. \<^verbatim>\<open>Date.now()\<close> is read again for every draft,
  after the thumbnail request of that draft has been awaited, and only the index
  \<open>i * 5 + j\<close> is subtracted. With two seconds per thumbnail the two drafts of a chunk
  are stamped 3000 and 4999: the timestamps increase in request order, and the live
  query (descending creation time) lists the second draft before the first.
\<close>

theorem timestamps_follow_the_clock:
  "map created_at (map snd (rows (posts (db (handleBulkGenerate world_ok (app0\<lparr>genCount := 2\<rparr>)))))) =
     [3000, 4999] \<and>
   map title (map snd (rows (posts (db (handleBulkGenerate world_ok (app0\<lparr>genCount := 2\<rparr>)))))) =
     [''Alpha'', ''Beta''] \<and>
   map title (map snd (live_posts (db (handleBulkGenerate world_ok (app0\<lparr>genCount := 2\<rparr>))))) =
     [''Beta'', ''Alpha'']"
  by (simp add: handleBulkGenerate_def app0_def iterations_2 chunk_loop.simps world_ok_def
      generatePostsBulk_def setProgress_def emit_def store_posts_def table_add_def empty_table_def
      draft_post_def generateThumbnail_def thumbnail_prompt_for_def thumb_ok_def draft_a_def draft_b_def
      chunkSize_def live_posts_def)

section \<open>Virality scores\<close>

lemma scores_in_range_column:
  "scores_in_range (posts (db s)) = list_all score_in_range (score_column s)"
  by (simp add: scores_in_range_def score_column_def list_all_iff)

lemma virality_draft_post: "virality_score (draft_post w sty i j p) = draft_virality_score p"
  by (simp add: draft_post_def split: promise.splits prod.splits)

lemma virality_draft_loop:
  "map virality_score (draft_loop w sty i j ds) = map draft_virality_score ds"
  by (induction ds arbitrary: j) (simp_all add: virality_draft_post)

lemma virality_chunk_posts: "map virality_score (chunk_posts w sty i) = chunk_scores w i"
  by (simp add: chunk_posts_def chunk_scores_def virality_draft_loop
      split: promise.splits response_json.splits)

lemma virality_chunks:
  "map virality_score (concat (map (chunk_posts w sty) ks)) = concat (map (chunk_scores w) ks)"
  by (induction ks) (simp_all add: virality_chunk_posts)

lemma chunk_scores_in_range: "drafts_in_range w i \<Longrightarrow> list_all score_in_range (chunk_scores w i)"
  by (auto simp: drafts_in_range_def chunk_scores_def list_all_iff
      split: promise.splits response_json.splits)

lemma chunks_scores_in_range:
  "\<forall>k. drafts_in_range w k \<Longrightarrow> list_all score_in_range (concat (map (chunk_scores w) ks))"
  by (induction ks) (simp_all add: chunk_scores_in_range)

text \<open>Bulk generation appends the scores the text service returned, as they are.\<close>

lemma handleBulkGenerate_scores:
  "score_column (handleBulkGenerate w s) =
   score_column s @
     (if genTopic s = [] then []
      else concat (map (chunk_scores w)
             [0..<chunks_completed w (nat (iterations_of (genCount s)))]))"
proof (cases "genTopic s = []")
  case True
  then show ?thesis by (simp add: handleBulkGenerate_no_topic)
next
  case False
  have "score_column (handleBulkGenerate w s) =
        map virality_score (map snd (rows (posts (db (handleBulkGenerate w s)))))"
    by (simp add: score_column_def)
  also have "\<dots> = map virality_score
        (map snd (rows (posts (db s))) @
         concat (map (chunk_posts w (genStyle s))
           [0..<chunks_completed w (nat (iterations_of (genCount s)))]))"
    unfolding handleBulkGenerate_rows [OF False] ..
  finally show ?thesis
    using False by (simp add: score_column_def virality_chunks)
qed

text \<open>Seeding appends 95 and 92 to an empty table and does nothing otherwise.\<close>

lemma seed_scores:
  "score_column (seed now1 now2 s) =
   score_column s @ (if table_count (posts (db s)) = 0 then [JsNumber 95, JsNumber 92] else [])"
proof -
  have "map virality_score (seed_posts now1 now2) = [JsNumber 95, JsNumber 92]"
    by (simp add: seed_posts_def)
  moreover have "score_column (store_posts ps s) = score_column s @ map virality_score ps" for ps
    unfolding score_column_def store_posts_def by (simp add: rows_table_bulkAdd del: map_map)
  ultimately show ?thesis
    by (simp add: seed_def)
qed

text \<open>The two handlers that update a stored post write other fields only.\<close>

lemma scores_after_update:
  assumes "\<forall>q. virality_score (f q) = virality_score q"
  shows "map virality_score
           (map snd (map (\<lambda>row. if fst row = k then (fst row, f (snd row)) else row) rs)) =
         map virality_score (map snd rs)"
  using assms by (induction rs) simp_all

lemma handleSaveEdit_scores: "score_column (handleSaveEdit s) = score_column s"
proof (cases "selectedPost s")
  case None
  then show ?thesis by (simp add: handleSaveEdit_def)
next
  case (Some sel)
  obtain k p where sel: "sel = (k, p)" by (cases sel)
  have "map virality_score
          (map snd (map (\<lambda>row. if fst row = k
                           then (fst row, (snd row)\<lparr>title := editedTitle s, content := editedContent s\<rparr>)
                           else row) (rows (posts (db s))))) =
        map virality_score (map snd (rows (posts (db s))))"
    by (rule scores_after_update) simp
  then show ?thesis
    using Some sel by (simp add: handleSaveEdit_def table_update_def score_column_def)
qed

lemma handleRegenerateThumbnail_scores:
  "score_column (handleRegenerateThumbnail post tw s) = score_column s"
proof (cases "fst post = 0")
  case True
  then show ?thesis by (simp add: handleRegenerateThumbnail_def)
next
  case False
  show ?thesis
  proof (cases "generateThumbnail (content (snd post)) (Some (customThumbPrompt s)) tw")
    case Rejected
    then show ?thesis
      using False by (simp add: handleRegenerateThumbnail_def emit_def score_column_def)
  next
    case (Resolved thumbResult)
    have "map virality_score
            (map snd (map (\<lambda>row. if fst row = fst post
                             then (fst row, (snd row)\<lparr>thumbnail_url := fst thumbResult,
                                                    thumbnail_prompt := Some (snd thumbResult)\<rparr>)
                             else row) (rows (posts (db s))))) =
          map virality_score (map snd (rows (posts (db s))))"
      by (rule scores_after_update) simp
    then show ?thesis
      using False Resolved
      by (simp add: handleRegenerateThumbnail_def table_update_def score_column_def
          split: option.splits prod.splits)
  qed
qed

text \<open>
  C1, as amended. Bulk generation appends to the stored scores exactly the scores that
  the text service returned for the drafts of the chunks it got through, unvalidated
  (a score may be out of range, fractional, or no number at all); seeding appends 95
  and 92 when the table is empty and nothing otherwise; saving an edit and regenerating
  a thumbnail leave every stored score as it was. Hence, if every stored score was a
  whole number from 0 to 100 before and every draft the text service returns carries
  such a score, every stored score is a whole number from 0 to 100 after any of these
  operations.
\<close>

theorem stored_scores:
  "score_column (handleBulkGenerate w s) =
     score_column s @
       (if genTopic s = [] then []
        else concat (map (chunk_scores w)
               [0..<chunks_completed w (nat (iterations_of (genCount s)))])) \<and>
   score_column (seed now1 now2 s) =
     score_column s @ (if table_count (posts (db s)) = 0 then [JsNumber 95, JsNumber 92] else []) \<and>
   score_column (handleSaveEdit s) = score_column s \<and>
   score_column (handleRegenerateThumbnail post tw s) = score_column s \<and>
   (scores_in_range (posts (db s)) \<and> (\<forall>k. drafts_in_range w k) \<longrightarrow>
      scores_in_range (posts (db (handleBulkGenerate w s))) \<and>
      scores_in_range (posts (db (seed now1 now2 s))) \<and>
      scores_in_range (posts (db (handleSaveEdit s))) \<and>
      scores_in_range (posts (db (handleRegenerateThumbnail post tw s))))"
proof -
  have "scores_in_range (posts (db (handleBulkGenerate w s)))"
    if "scores_in_range (posts (db s))" "\<forall>k. drafts_in_range w k"
    using that chunks_scores_in_range [OF that(2)]
    by (simp add: scores_in_range_column handleBulkGenerate_scores)
  moreover have "scores_in_range (posts (db (seed now1 now2 s)))"
    if "scores_in_range (posts (db s))"
    using that by (simp add: scores_in_range_column seed_scores score_in_range_def)
  moreover have "scores_in_range (posts (db (handleSaveEdit s)))"
    if "scores_in_range (posts (db s))"
    using that by (simp add: scores_in_range_column handleSaveEdit_scores)
  moreover have "scores_in_range (posts (db (handleRegenerateThumbnail post tw s)))"
    if "scores_in_range (posts (db s))"
    using that by (simp add: scores_in_range_column handleRegenerateThumbnail_scores)
  ultimately show ?thesis
    using handleBulkGenerate_scores [of w s] seed_scores [of now1 now2 s]
      handleSaveEdit_scores [of s] handleRegenerateThumbnail_scores [of post tw s]
    by blast
qed

text \<open>
  On the state with one stored post (score 95), selected and being edited: a bulk
  generation appends 95 and 40, saving the edit rewrites the title and regenerating the
  thumbnail rewrites the prompt, both leaving the 95; seeding the empty table stores 95
  and 92; and all of these tables are in range.
\<close>

theorem stored_scores_witness:
  "score_column app_editing = [JsNumber 95] \<and>
   score_column (handleBulkGenerate world_ok app_editing) = [JsNumber 95, JsNumber 95, JsNumber 40] \<and>
   score_column (seed 50000 50001 app0) = [JsNumber 95, JsNumber 92] \<and>
   score_column (handleSaveEdit app_editing) = [JsNumber 95] \<and>
   map title (map snd (rows (posts (db (handleSaveEdit app_editing))))) = [''Alpha, revised''] \<and>
   score_column (handleRegenerateThumbnail (1, post_alpha) thumb_ok app_editing) = [JsNumber 95] \<and>
   map thumbnail_prompt
     (map snd (rows (posts (db (handleRegenerateThumbnail (1, post_alpha) thumb_ok app_editing))))) =
     [Some ''a lighthouse''] \<and>
   scores_in_range (posts (db (handleBulkGenerate world_ok app_editing))) \<and>
   scores_in_range (posts (db (seed 50000 50001 app0))) \<and>
   scores_in_range (posts (db (handleSaveEdit app_editing))) \<and>
   scores_in_range (posts (db (handleRegenerateThumbnail (1, post_alpha) thumb_ok app_editing)))"
proof -
  have col: "score_column app_editing = [JsNumber 95]"
    by (simp add: score_column_def app_editing_def app0_def table_add_def empty_table_def post_alpha_def)
  have col0: "score_column app0 = []" "table_count (posts (db app0)) = 0"
    by (simp_all add: score_column_def app0_def empty_table_def table_count_def)
  have a: "scores_in_range (posts (db app_editing))"
    by (simp add: scores_in_range_column col score_in_range_def)
  have a0: "scores_in_range (posts (db app0))"
    by (simp add: scores_in_range_column col0)
  have b: "\<forall>k. drafts_in_range world_ok k"
    by (simp add: drafts_in_range_def world_ok_def draft_a_def draft_b_def score_in_range_def)
  have cc: "chunks_completed world_ok (nat (iterations_of (genCount app_editing))) = 1"
    by (simp add: app_editing_def app0_def iterations_5 chunk_completes_def world_ok_def)
  have top: "genTopic app_editing \<noteq> []" by (simp add: app_editing_def app0_def)
  have cs: "chunk_scores world_ok 0 = [JsNumber 95, JsNumber 40]"
    by (simp add: chunk_scores_def world_ok_def draft_a_def draft_b_def)
  have edit: "map title (map snd (rows (posts (db (handleSaveEdit app_editing))))) = [''Alpha, revised'']"
    by (simp add: handleSaveEdit_def app_editing_def app0_def table_update_def table_add_def
        empty_table_def post_alpha_def)
  have regen: "map thumbnail_prompt
      (map snd (rows (posts (db (handleRegenerateThumbnail (1, post_alpha) thumb_ok app_editing))))) =
      [Some ''a lighthouse'']"
    by (simp add: handleRegenerateThumbnail_def app_editing_def app0_def table_update_def
        table_add_def empty_table_def post_alpha_def generateThumbnail_def thumbnail_prompt_for_def
        thumb_ok_def)
  show ?thesis
    using stored_scores [of world_ok app_editing 50000 50001 "(1, post_alpha)" thumb_ok]
      stored_scores [of world_ok app0 50000 50001 "(1, post_alpha)" thumb_ok]
      a a0 b top edit regen
    by (simp add: col col0 cc cs)
qed

text \<open>
  C1 as stated fails: drafts that come back with the scores 150 and 87.5, and a draft
  without a score, are stored with exactly these.
\<close>

theorem score_out_of_range_counterexample:
  "scores_in_range (posts (db app0)) \<and>
   score_column (handleBulkGenerate world_hot (app0\<lparr>genCount := 3\<rparr>)) =
     [JsNumber 150, JsNumber (175 / 2), JsUndefined] \<and>
   \<not> score_in_range (JsNumber 150) \<and>
   \<not> score_in_range (JsNumber (175 / 2)) \<and>
   \<not> score_in_range JsUndefined \<and>
   \<not> scores_in_range (posts (db (handleBulkGenerate world_hot (app0\<lparr>genCount := 3\<rparr>))))"
proof -
  have it: "iterations_of 3 = 1" using iterations_of_exact [of 3] by simp
  have cc: "chunks_completed world_hot (nat (iterations_of (genCount (app0\<lparr>genCount := 3\<rparr>)))) = 1"
    by (simp add: app0_def it chunk_completes_def world_hot_def)
  have cs: "chunk_scores world_hot 0 = [JsNumber 150, JsNumber (175 / 2), JsUndefined]"
    by (simp add: chunk_scores_def world_hot_def draft_hot_def draft_fraction_def draft_missing_def)
  have col0: "score_column (app0\<lparr>genCount := 3\<rparr>) = []"
    by (simp add: score_column_def app0_def empty_table_def)
  have top: "genTopic app0 \<noteq> []"
    by (simp add: app0_def)
  have col: "score_column (handleBulkGenerate world_hot (app0\<lparr>genCount := 3\<rparr>)) =
        [JsNumber 150, JsNumber (175 / 2), JsUndefined]"
    unfolding handleBulkGenerate_scores cc
    by (simp add: col0 cs top)
  have bad: "\<not> score_in_range (JsNumber 150)" "\<not> score_in_range (JsNumber (175 / 2))"
    "\<not> score_in_range JsUndefined"
    by (simp_all add: score_in_range_def)
  have "scores_in_range (posts (db app0))"
    by (simp add: scores_in_range_def app0_def empty_table_def)
  then show ?thesis
    using col bad by (simp add: scores_in_range_column)
qed

section \<open>Unknown identifiers\<close>

lemma table_delete_missing:
  assumes "k \<notin> set (table_keys t)"
  shows "table_delete k t = Resolved t"
proof -
  have "filter (\<lambda>row. fst row \<noteq> k) (rows t) = rows t"
    using assms by (auto simp: table_keys_def filter_id_conv)
  then show ?thesis by (simp add: table_delete_def)
qed

lemma table_update_missing:
  assumes "k \<notin> set (table_keys t)"
  shows "table_update k f t = Resolved (t, 0)"
proof -
  have "\<forall>row \<in> set (rows t). fst row \<noteq> k"
    using assms by (auto simp: table_keys_def)
  then have "map (\<lambda>row. if fst row = k then (fst row, f (snd row)) else row) (rows t) = rows t"
    by (intro map_idI) simp
  moreover have "filter (\<lambda>row. fst row = k \<and> f (snd row) \<noteq> snd row) (rows t) = []"
    using assms by (auto simp: table_keys_def filter_empty_conv)
  ultimately show ?thesis by (simp add: table_update_def)
qed

text \<open>
  C9, as amended. For every id that is not in the posts table, deleting and saving an
  edit complete normally and leave the database as it was: the store's delete resolves
  whether or not the key exists, its update resolves with the count 0, which the caller
  does not inspect, and no error is logged or raised.
\<close>

theorem unknown_id_is_silent:
  assumes "k \<notin> set (table_keys (posts (db s)))"
  shows "table_delete k (posts (db s)) = Resolved (posts (db s)) \<and>
         table_update k f (posts (db s)) = Resolved (posts (db s), 0) \<and>
         snd (handleDelete (Some k) confirmed s) = Normal \<and>
         db (fst (handleDelete (Some k) confirmed s)) = db s \<and>
         trace (fst (handleDelete (Some k) confirmed s)) = trace s \<and>
         db (handleSaveEdit (s\<lparr>selectedPost := Some (k, p)\<rparr>)) = db s \<and>
         trace (handleSaveEdit (s\<lparr>selectedPost := Some (k, p)\<rparr>)) = trace s"
  using table_delete_missing [OF assms] table_update_missing [OF assms]
  by (simp add: handleDelete_def handleSaveEdit_def)

theorem unknown_id_is_silent_witness:
  "handleDelete (Some 7) True app0 = (app0, Normal) \<and>
   db (handleSaveEdit (app0\<lparr>selectedPost := Some (7, post_alpha)\<rparr>)) = db app0 \<and>
   trace (handleSaveEdit (app0\<lparr>selectedPost := Some (7, post_alpha)\<rparr>)) = []"
proof -
  have h: "7 \<notin> set (table_keys (posts (db app0)))"
    by (simp add: app0_def table_keys_def empty_table_def)
  have "selectedPost app0 = None" by (simp add: app0_def)
  then have "handleDelete (Some 7) True app0 = (app0, Normal)"
    using unknown_id_is_silent [OF h, of id True post_alpha]
    by (simp add: handleDelete_def)
  moreover have "trace app0 = []" by (simp add: app0_def)
  ultimately show ?thesis
    using unknown_id_is_silent [OF h, of id True post_alpha] by simp
qed

text \<open>
  C9 as stated fails: deleting the id 7 from an empty posts table, and updating it,
  resolve; nothing is rejected and the handler returns normally with the state unchanged.
\<close>

theorem not_found_counterexample:
  "7 \<notin> set (table_keys (posts (db app0))) \<and>
   table_delete 7 (posts (db app0)) = Resolved (posts (db app0)) \<and>
   table_update 7 id (posts (db app0)) = Resolved (posts (db app0), 0) \<and>
   handleDelete (Some 7) True app0 = (app0, Normal) \<and>
   handleSaveEdit (app0\<lparr>selectedPost := Some (7, post_alpha)\<rparr>) =
     app0\<lparr>selectedPost := Some (7, post_alpha\<lparr>title := [], content := []\<rparr>)\<rparr>"
  by (simp add: app0_def table_keys_def empty_table_def table_delete_def table_update_def
      handleDelete_def handleSaveEdit_def)

section \<open>Deleting a referenced post\<close>

lemma delete_removes_post:
  "k \<noteq> 0 \<Longrightarrow> k \<notin> set (table_keys (posts (db (fst (handleDelete (Some k) True s)))))"
  by (auto simp: handleDelete_def table_delete_def table_keys_def)

text \<open>
  C10. Deleting a post, whatever the id and whether or not reminders reference it,
  leaves the reminders table exactly as it was: every reminder keeps all its fields,
  and the due-reminder query returns what it returned before.
\<close>

theorem delete_keeps_reminders:
  "reminders (db (fst (handleDelete ident confirmed s))) = reminders (db s) \<and>
   rows (reminders (db (fst (handleDelete ident confirmed s)))) = rows (reminders (db s)) \<and>
   dueReminders now (reminders (db (fst (handleDelete ident confirmed s)))) =
     dueReminders now (reminders (db s))"
  by (simp add: handleDelete_def table_delete_def split: option.splits)

section \<open>The reminder tick\<close>

lemma notification_mark_notified:
  "mark_notified k s = Resolved s' \<Longrightarrow> notification s' = notification s \<and> trace s' = trace s"
  by (auto simp: mark_notified_def table_update_def)

lemma set_dueReminders:
  "set (dueReminders now t) = {row \<in> set (rows t). time (snd row) \<le> now \<and> \<not> notified (snd row)}"
  by (auto simp: dueReminders_def)

lemma tick_idle:
  assumes "dueReminders now (reminders (db s)) = []"
  shows "tick now s = (s, Normal)"
  using assms by (simp add: tick_def)

text \<open>
  When \<^verbatim>\<open>sendNotification\<close> returns, the loop marks every reminder it was given and
  reports one event for each; a tick then leaves no reminder due, and a second tick
  changes nothing.
\<close>

lemma reminder_loop_permitted:
  assumes "notification s = Permission p"
  shows "snd (reminder_loop rs s) = Normal \<and>
         trace (fst (reminder_loop rs s)) = trace s @ map (\<lambda>r. reminder_event p (snd r)) rs \<and>
         rows (reminders (db (fst (reminder_loop rs s)))) =
           map (\<lambda>row. if fst row \<in> fst ` set rs then (fst row, (snd row)\<lparr>notified := True\<rparr>) else row)
             (rows (reminders (db s))) \<and>
         posts (db (fst (reminder_loop rs s))) = posts (db s)"
  using assms
proof (induction rs arbitrary: s)
  case Nil
  then show ?case by (simp add: map_idI)
next
  case (Cons r rs)
  define s' where "s' = (emit (reminder_event p (snd r)) s)
     \<lparr>db := (db s)\<lparr>reminders := (reminders (db s))
        \<lparr>rows := map (\<lambda>row. if fst row = fst r then (fst row, (snd row)\<lparr>notified := True\<rparr>) else row)
                   (rows (reminders (db s)))\<rparr>\<rparr>\<rparr>"
  have step: "reminder_loop (r # rs) s = reminder_loop rs s'"
    using Cons.prems
    by (simp add: sendNotification_def reminder_event_def mark_notified_def table_update_def
        emit_def s'_def)
  have n: "notification s' = Permission p"
    using Cons.prems by (simp add: s'_def emit_def)
  have rows: "map (\<lambda>row. if fst row \<in> fst ` set rs then (fst row, (snd row)\<lparr>notified := True\<rparr>) else row)
                (rows (reminders (db s'))) =
              map (\<lambda>row. if fst row \<in> fst ` set (r # rs) then (fst row, (snd row)\<lparr>notified := True\<rparr>) else row)
                (rows (reminders (db s)))"
    by (simp add: s'_def emit_def)
  show ?case
    unfolding step using Cons.IH [OF n] rows
    by (simp add: s'_def emit_def)
qed

lemma tick_permitted:
  assumes "notification s = Permission p"
  shows "snd (tick now s) = Normal \<and>
         trace (fst (tick now s)) =
           trace s @ map (\<lambda>r. reminder_event p (snd r)) (dueReminders now (reminders (db s))) \<and>
         dueReminders now (reminders (db (fst (tick now s)))) = []"
proof -
  define due where "due = dueReminders now (reminders (db s))"
  note loop = reminder_loop_permitted [OF assms, of due]
  have "\<forall>row \<in> set (rows (reminders (db (fst (tick now s))))).
          \<not> (time (snd row) \<le> now \<and> \<not> notified (snd row))"
  proof
    fix row'
    assume a: "row' \<in> set (rows (reminders (db (fst (tick now s)))))"
    define g where "g = (\<lambda>row :: nat \<times> Reminder.
       if fst row \<in> fst ` set due then (fst row, (snd row)\<lparr>notified := True\<rparr>) else row)"
    have "rows (reminders (db (fst (tick now s)))) = map g (rows (reminders (db s)))"
      using loop by (simp add: tick_def due_def g_def)
    then have "row' \<in> g ` set (rows (reminders (db s)))" using a by simp
    then obtain row where row: "row \<in> set (rows (reminders (db s)))" and "row' = g row"
      by blast
    then have row': "row' = (if fst row \<in> fst ` set due then (fst row, (snd row)\<lparr>notified := True\<rparr>) else row)"
      by (simp add: g_def)
    show "\<not> (time (snd row') \<le> now \<and> \<not> notified (snd row'))"
    proof (cases "fst row \<in> fst ` set due")
      case True
      then show ?thesis using row' by simp
    next
      case False
      then have "row \<notin> set due" by force
      then show ?thesis using row row' False by (simp add: due_def set_dueReminders)
    qed
  qed
  then have "set (dueReminders now (reminders (db (fst (tick now s))))) = {}"
    unfolding set_dueReminders by blast
  then show ?thesis using loop by (simp add: tick_def due_def)
qed

lemma tick_twice:
  assumes "notification s = Permission p"
  shows "tick now (fst (tick now s)) = (fst (tick now s), Normal)"
  using tick_permitted [OF assms] by (intro tick_idle) simp

text \<open>
  C2, evaluated at the failing input. In a browser without the \<^verbatim>\<open>Notification\<close>
  global (the case that line 87 guards against), \<^verbatim>\<open>sendNotification\<close> throws before the
  update is reached: the tick ends abnormally, nothing is delivered, the reminder keeps
  \<open>notified = false\<close>, and the next tick finds it due again.
\<close>

theorem failed_delivery_blocks_the_flag:
  "dueReminders 200 (reminders (db app_no_api)) = [(1, reminder0)] \<and>
   tick 200 app_no_api = (app_no_api, Thrown) \<and>
   notifications (trace (fst (tick 200 app_no_api))) = [] \<and>
   alerts (trace (fst (tick 200 app_no_api))) = [] \<and>
   map notified (map snd (rows (reminders (db (fst (tick 200 app_no_api)))))) = [False] \<and>
   dueReminders 210 (reminders (db (fst (tick 200 app_no_api)))) = [(1, reminder0)] \<and>
   tick 210 (fst (tick 200 app_no_api)) = (app_no_api, Thrown)"
proof -
  have due: "dueReminders now (reminders (db app_no_api)) = [(1, reminder0)]" if "100 \<le> now" for now
    using that
    by (simp add: dueReminders_def app_no_api_def app_reminder_def app0_def table_add_def
        empty_table_def reminder0_def)
  have n: "notification app_no_api = NoNotificationAPI"
    by (simp add: app_no_api_def app_reminder_def app0_def)
  have t: "tick now app_no_api = (app_no_api, Thrown)" if "100 \<le> now" for now
    using due [OF that] n by (simp add: tick_def sendNotification_def)
  have r: "map notified (map snd (rows (reminders (db app_no_api)))) = [False]"
    by (simp add: app_no_api_def app_reminder_def app0_def table_add_def empty_table_def reminder0_def)
  have e: "trace app_no_api = []"
    by (simp add: app_no_api_def app_reminder_def app0_def)
  show ?thesis using due [of 200] due [of 210] t [of 200] t [of 210] r e
    by (simp add: notifications_def alerts_def)
qed

end
